theory Spec2Isabelle
  imports Main
begin

section \<open>Message model (ts/models/message.ts)\<close>

text \<open>
  A Backbone model is a bag of attributes read with \<open>get\<close> and written with \<open>set\<close>.
  Attributes that the code reads as \<open>this.get('x') || []\<close> may be absent (or \<open>null\<close>):
  they are options here, \<open>None\<close> standing for \<open>undefined\<close> and \<open>null\<close> alike. An
  element of \<open>sent_to\<close> is the device of a sent message, which the code does not check
  before it adds it: it is a key or \<open>undefined\<close>.
\<close>

datatype ctor = CtorError | CtorTypeError | CtorReferenceError | CtorOther | CtorObject

text \<open>
  A thrown or recorded error: the five properties \<open>saveErrors\<close> keeps, the constructor
  it tests, and the stack trace, which \<open>_.pick\<close> drops.
\<close>

record js_error =
  err_ctor :: ctor
  err_name :: string
  err_message :: string
  err_code :: "int option"
  err_number :: "string option"
  err_reason :: "string option"
  err_stack :: "string option"

datatype msg_type = Incoming | Outgoing

text \<open>
  The \<open>expireTimer\<close> attribute of a conversation and the value passed to
  \<open>updateExpirationTimer\<close>: a number, \<open>null\<close> or \<open>undefined\<close>.
\<close>

datatype timer_val = Undefined | Null | Num nat

text \<open>The \<open>expirationTimerUpdate\<close> attribute of a timer notification; \<open>mentionsUs\<close>
  below stands for "\<open>propsForMessage.text\<close> contains \<open>@ourNumber\<close>".\<close>

record timer_update =
  tu_expireTimer :: timer_val
  tu_source :: string
  tu_fromSync :: bool
  tu_fromGroupUpdate :: bool

record message =
  msg_id :: string
  msg_type :: msg_type
  conversationId :: string
  source :: "string option"
  errors :: "js_error list option"
  recipients :: "string list option"
  read_by :: "string list option"
  delivered :: "nat option"
  delivered_to :: "string list option"
  sent :: bool
  sent_to :: "string option list option"
  calculatingPoW :: bool
  unread :: bool
  synced :: bool
  sentSync :: bool
  sync :: bool
  sent_at :: "nat option"
  received_at :: nat
  expireTimer :: "nat option"
  expirationStartTimestamp :: "nat option"
  expires_at :: "nat option"
  groupInvitation :: bool
  destination :: "string option"
  expirationTimerUpdate :: "timer_update option"
  mentionsUs :: bool

text \<open>
  What the code reads from outside the two models: the read-receipt setting
  (\<open>window.storage.get('read-receipt-setting')\<close>), whether the messaging layer is up
  (\<open>window.textsecure.messaging\<close>), and \<open>UserUtils.isUsFromCache\<close>.
\<close>

record env =
  read_receipt_setting :: bool
  messaging :: bool
  isUsFromCache :: "string \<Rightarrow> bool"
  ourPubKey :: string

text \<open>The idiom \<open>this.get('x') || []\<close>.\<close>

definition or_empty :: "'a list option \<Rightarrow> 'a list" where
  "or_empty v = (case v of None \<Rightarrow> [] | Some xs \<Rightarrow> xs)"

text \<open>JavaScript truthiness of an optional number: \<open>undefined\<close>, \<open>null\<close> and \<open>0\<close> are falsy.\<close>

definition truthy :: "nat option \<Rightarrow> bool" where
  "truthy v = (case v of None \<Rightarrow> False | Some n \<Rightarrow> n \<noteq> 0)"

definition isOutgoing :: "message \<Rightarrow> bool" where
  "isOutgoing m = (msg_type m = Outgoing)"

definition isIncoming :: "message \<Rightarrow> bool" where
  "isIncoming m = (msg_type m = Incoming)"

text \<open>\<open>_.size(this.get('errors')) > 0\<close>; \<open>_.size\<close> of \<open>null\<close> is 0.\<close>

definition hasErrors :: "message \<Rightarrow> bool" where
  "hasErrors m = (length (or_empty (errors m)) > 0)"

datatype status = Error | Read | Delivered | Sent | PoW | Sending

definition getMessagePropStatus :: "env \<Rightarrow> message \<Rightarrow> status option" where
  "getMessagePropStatus e m =
     (if hasErrors m then Some Error
      else if \<not> isOutgoing m then None
      else if read_receipt_setting e \<and> length (or_empty (read_by m)) > 0 then Some Read
      else if truthy (delivered m) \<or> length (or_empty (delivered_to m)) > 0 then Some Delivered
      else if sent m \<or> length (or_empty (sent_to m)) > 0 then Some Sent
      else if calculatingPoW m then Some PoW
      else Some Sending)"

text \<open>
  \<open>saveErrors(providedErrors)\<close>: the argument is one error or an array of errors.
  Errors built by \<open>Error\<close>, \<open>TypeError\<close> or \<open>ReferenceError\<close> are reduced by
  \<open>_.pick\<close> to a plain object of five properties; any other value is stored as it is.
  The new errors come first, the recorded ones after them.
\<close>

datatype provided_errors = One js_error | Many "js_error list"

definition pick_error :: "js_error \<Rightarrow> js_error" where
  "pick_error e =
     (if err_ctor e = CtorError \<or> err_ctor e = CtorTypeError \<or> err_ctor e = CtorReferenceError
      then e\<lparr>err_ctor := CtorObject, err_stack := None\<rparr>
      else e)"

definition as_array :: "provided_errors \<Rightarrow> js_error list" where
  "as_array p = (case p of One e \<Rightarrow> [e] | Many es \<Rightarrow> es)"

definition saveErrors :: "provided_errors \<Rightarrow> message \<Rightarrow> message" where
  "saveErrors p m = m\<lparr>errors := Some (map pick_error (as_array p) @ or_empty (errors m))\<rparr>"

section \<open>Conversation attributes (the conversation model)\<close>

text \<open>
  The \<open>type\<close> attribute is the string \<open>'private'\<close> or \<open>'group'\<close>; \<open>validate\<close> rejects any
  other, but \<open>sendMessageJob\<close> still has a branch for it.
\<close>

datatype conv_type = Private | Group | OtherType string

record conversation =
  conv_id :: string
  conv_type :: conv_type
  members :: "string list"
  is_medium_group :: bool
  conv_expireTimer :: timer_val
  unreadCount :: nat
  mentionedUs :: bool
  profileSharing :: bool

definition isPrivate :: "conversation \<Rightarrow> bool" where
  "isPrivate c = (conv_type c = Private)"

text \<open>\<open>!!(this.id && this.id.match(/^publicChat:/))\<close>\<close>

definition isPublic :: "conversation \<Rightarrow> bool" where
  "isPublic c = (take 11 (conv_id c) = ''publicChat:'')"

definition isClosedGroup :: "conversation \<Rightarrow> bool" where
  "isClosedGroup c = (conv_type c = Group \<and> \<not> isPublic c)"

definition isMediumGroup :: "conversation \<Rightarrow> bool" where
  "isMediumGroup c = is_medium_group c"

definition isMe :: "env \<Rightarrow> conversation \<Rightarrow> bool" where
  "isMe e c = isUsFromCache e (conv_id c)"

text \<open>\<open>_.without(array, v)\<close>, \<open>_.uniq\<close> (first occurrences, in order) and
  \<open>_.intersection(a, b)\<close> (the unique values of \<open>a\<close> that are in \<open>b\<close>, in the order of \<open>a\<close>).\<close>

definition without :: "'a list \<Rightarrow> 'a \<Rightarrow> 'a list" where
  "without xs v = filter (\<lambda>x. x \<noteq> v) xs"

definition uniq :: "'a list \<Rightarrow> 'a list" where
  "uniq xs = rev (remdups (rev xs))"

definition intersection :: "'a list \<Rightarrow> 'a list \<Rightarrow> 'a list" where
  "intersection xs ys = uniq (filter (\<lambda>x. x \<in> set ys) xs)"

definition union :: "'a list \<Rightarrow> 'a list \<Rightarrow> 'a list" where
  "union xs ys = uniq (xs @ ys)"

definition getRecipients :: "env \<Rightarrow> conversation \<Rightarrow> string list" where
  "getRecipients e c =
     (if isPrivate c then [conv_id c] else without (members c) (ourPubKey e))"

section \<open>Effects\<close>

text \<open>
  What an operation does outside the model it runs on, in the order it does it: commits
  to the database, uploads, calls of the message queue (the delivery gateway) and events.
\<close>

datatype payload =
    ChatMessage
  | OpenGroupMessage
  | ClosedGroupChatMessage
  | GroupInvitationMessage
  | ExpirationTimerUpdateMessage timer_val
  | ReadReceiptMessage "nat list"

datatype effect =
    SaveMessage message
  | UpdateConversation conversation
  | UploadData
  | SendToPubKey string payload
  | SendToGroup payload
  | MessageAdded message
  | RemoveNotifications

text \<open>The value an operation returns to its caller: \<open>null\<close>, or something else
  (a promise of the message queue, a model, \<open>undefined\<close>).\<close>

datatype retval = RetNull | RetOther

text \<open>
  What a \<open>catch\<close> receives: JavaScript throws, and rejects a promise with, any value.
  It is \<open>undefined\<close> or \<open>null\<close>, or an object with the properties of \<open>js_error\<close>.
\<close>

datatype thrown = ThrownNullish | ThrownError js_error

text \<open>
  The collaborators whose code is not in these files, as far as an operation depends on
  them: \<open>uploadData\<close> either returns or throws some value, the \<open>PubKey\<close> constructor
  either returns or throws an error of its own, and an awaited call of the message queue
  either resolves or rejects with some value.
\<close>

record collab =
  uploadData_throws :: "thrown option"
  newPubKey_throws :: "string \<Rightarrow> js_error option"
  send_rejects :: "thrown option"

text \<open>
  \<open>saveErrors\<close> called with a caught value. Its logging guards the value
  (\<open>e && e.reason\<close>), the \<open>map\<close> after it does not: \<open>e.constructor\<close> of \<open>undefined\<close> or
  \<open>null\<close> throws a \<open>TypeError\<close> before anything is set or committed.
\<close>

definition constructor_type_error :: js_error where
  "constructor_type_error =
     \<lparr>err_ctor = CtorTypeError, err_name = ''TypeError'',
      err_message = ''Cannot read property '' @ [CHR 0x27] @ ''constructor'' @ [CHR 0x27]
                      @ '' of undefined'',
      err_code = None, err_number = None, err_reason = None, err_stack = None\<rparr>"

definition saveErrors_of_thrown :: "thrown \<Rightarrow> message \<Rightarrow> js_error + message" where
  "saveErrors_of_thrown t m =
     (case t of
        ThrownNullish \<Rightarrow> Inl constructor_type_error
      | ThrownError x \<Rightarrow> Inr (saveErrors (One x) m))"

text \<open>
  The handler \<open>catch (e) { await this.saveErrors(e); return null; }\<close> that
  \<open>sendMessageJob\<close>, \<open>retrySend\<close> and \<open>resend\<close> share: the message after it, what it
  committed, and how the operation ends, \<open>Inl\<close> when its promise rejects and \<open>Inr\<close> with
  the returned value when it resolves.
\<close>

definition catch_saveErrors ::
  "thrown \<Rightarrow> message \<Rightarrow> message \<times> effect list \<times> (thrown + retval)" where
  "catch_saveErrors t m =
     (case saveErrors_of_thrown t m of
        Inl x \<Rightarrow> (m, [], Inl (ThrownError x))
      | Inr m' \<Rightarrow> (m', [SaveMessage m'], Inr RetNull))"

section \<open>Message operations\<close>

text \<open>
  \<open>setToExpire(force)\<close> computes \<open>expires_at\<close> for a message that is expiring (a truthy
  timer and a truthy start), when forced or when there is none yet, and commits if the
  message has an id.
\<close>

definition setToExpire :: "bool \<Rightarrow> message \<Rightarrow> message \<times> effect list" where
  "setToExpire force m =
     (case (expireTimer m, expirationStartTimestamp m) of
        (Some timer, Some start) \<Rightarrow>
          if timer \<noteq> 0 \<and> start \<noteq> 0 \<and> (force \<or> \<not> truthy (expires_at m))
          then (let m' = m\<lparr>expires_at := Some (start + timer * 1000)\<rparr>
                in (m', if msg_id m' \<noteq> [] then [SaveMessage m'] else []))
          else (m, [])
      | _ \<Rightarrow> (m, []))"

text \<open>
  The constructor registers \<open>setToExpire\<close> for \<open>change:expirationStartTimestamp\<close>. A
  \<open>set\<close> that changes the start, once all its attributes are written, calls the listener
  with the model as first argument, which is the parameter \<open>force\<close>: it is truthy.
  \<open>before\<close> is the message before the \<open>set\<close>.
\<close>

definition on_change_start :: "message \<Rightarrow> message \<Rightarrow> message \<times> effect list" where
  "on_change_start before m =
     (if expirationStartTimestamp m \<noteq> expirationStartTimestamp before
      then setToExpire True m else (m, []))"

text \<open>\<open>sendSyncMessage\<close>: the sync message itself is commented out in the source; what is
  left marks the message as having sent its sync.\<close>

definition sendSyncMessage :: "message \<Rightarrow> message \<times> effect list" where
  "sendSyncMessage m =
     (if synced m \<or> sentSync m then (m, [])
      else (let m' = m\<lparr>sentSync := True\<rparr> in (m', [SaveMessage m'])))"

definition sendSyncMessageOnly :: "env \<Rightarrow> nat \<Rightarrow> message \<Rightarrow> message \<times> effect list" where
  "sendSyncMessageOnly e now m =
     (let m1 = m\<lparr>sent_to := Some [Some (ourPubKey e)], sent := True,
                  expirationStartTimestamp := Some now\<rparr>;
          (m2, changed) = on_change_start m m1;
          (m3, effs) = sendSyncMessage m2
      in (m3, changed @ SaveMessage m2 # effs))"

text \<open>
  What \<open>handleMessageSentSuccess\<close> reads of the sent message. The call of the push
  notification server is left out of the effects.
\<close>

record sent_message =
  device :: "string option"
  closedGroupEncryption :: bool
  openGroup :: bool
  hasDataMessage :: bool

definition isOurDevice :: "env \<Rightarrow> sent_message \<Rightarrow> bool" where
  "isOurDevice e sm =
     (case device sm of None \<Rightarrow> False | Some d \<Rightarrow> d \<noteq> [] \<and> isUsFromCache e d)"

definition handleMessageSentSuccess ::
  "env \<Rightarrow> nat \<Rightarrow> sent_message \<Rightarrow> message \<Rightarrow> message \<times> effect list" where
  "handleMessageSentSuccess e now sm m =
     (let sentTo = or_empty (sent_to m);
          shouldTriggerSyncMessage =
            (\<not> isOurDevice e sm \<and> \<not> closedGroupEncryption sm \<and> \<not> synced m \<and> \<not> sentSync m);
          shouldMarkMessageAsSynced = (isOurDevice e sm \<and> sentSync m);
          (m1, effs1) =
            (if openGroup sm then (m, [])
             else if shouldTriggerSyncMessage then
               (if hasDataMessage sm then sendSyncMessage m else (m, []))
             else if shouldMarkMessageAsSynced then (m\<lparr>synced := True\<rparr>, [])
             else (m, []));
          sentTo' = (if openGroup sm then sentTo else union sentTo [device sm]);
          m2 = m1\<lparr>sent_to := Some sentTo', sent := True, expirationStartTimestamp := Some now\<rparr>;
          (m3, changed) = on_change_start m1 m2
      in (m3, effs1 @ changed @ [SaveMessage m3]))"

text \<open>\<open>handleMessageSentFailure\<close>: \<open>err\<close> is the error when it is an instance of
  \<open>Error\<close>; the refresh of the profile after an identity key error is left out.\<close>

definition handleMessageSentFailure ::
  "env \<Rightarrow> nat \<Rightarrow> sent_message \<Rightarrow> js_error option \<Rightarrow> message \<Rightarrow> message \<times> effect list" where
  "handleMessageSentFailure e now sm err m =
     (let (m1, effs1) =
            (case err of None \<Rightarrow> (m, [])
             | Some x \<Rightarrow> (let m' = saveErrors (One x) m in (m', [SaveMessage m'])));
          m2 = (if isOurDevice e sm \<and> \<not> sync m1 then m1\<lparr>sentSync := False\<rparr> else m1);
          m3 = m2\<lparr>sent := True, expirationStartTimestamp := Some now\<rparr>;
          (m4, changed) = on_change_start m2 m3
      in (m4, effs1 @ changed @ [SaveMessage m4]))"

text \<open>\<open>markRead(readAt)\<close> of a message; \<open>readAt || Date.now()\<close> takes the current time
  when \<open>readAt\<close> is absent or 0.\<close>

definition markRead_message :: "nat \<Rightarrow> nat option \<Rightarrow> message \<Rightarrow> message \<times> effect list" where
  "markRead_message now readAt m =
     (let m1 = m\<lparr>unread := False\<rparr>;
          m2 = (if truthy (expireTimer m1) \<and> \<not> truthy (expirationStartTimestamp m1)
                then m1\<lparr>expirationStartTimestamp :=
                          Some (min now (case readAt of None \<Rightarrow> now
                                          | Some r \<Rightarrow> if r = 0 then now else r))\<rparr>
                else m1);
          (m3, changed) = on_change_start m1 m2
      in (m3, changed @ [RemoveNotifications, SaveMessage m3]))"

text \<open>
  \<open>removeOutgoingErrors(number)\<close>: \<open>_.partition\<close> splits the recorded errors, in order,
  into those that match and those that do not; the latter become the errors list and
  the first match, if any, is returned.
\<close>

definition outgoing_error_for :: "string \<Rightarrow> js_error \<Rightarrow> bool" where
  "outgoing_error_for number e =
     (err_number e = Some number \<and>
      (err_name e = ''MessageError'' \<or> err_name e = ''SendMessageNetworkError'' \<or>
       err_name e = ''OutgoingIdentityKeyError''))"

definition removeOutgoingErrors :: "string \<Rightarrow> message \<Rightarrow> message \<times> js_error option" where
  "removeOutgoingErrors number m =
     (let (matching, others) = partition (outgoing_error_for number) (or_empty (errors m))
      in (m\<lparr>errors := Some others\<rparr>,
          case matching of [] \<Rightarrow> None | x # _ \<Rightarrow> Some x))"

text \<open>
  \<open>resend(number)\<close>. The message queue's promise is returned without \<open>await\<close>, so only
  what throws before the call (the upload, the \<open>PubKey\<close> constructor) reaches the
  \<open>catch\<close>.
\<close>

definition resend ::
  "env \<Rightarrow> collab \<Rightarrow> nat \<Rightarrow> conversation \<Rightarrow> string \<Rightarrow> message \<Rightarrow>
     message \<times> effect list \<times> (thrown + retval)" where
  "resend e cb now conversation number m =
     (let (m1, error) = removeOutgoingErrors number m;
          failed = (\<lambda>t. let (m', effs, r) = catch_saveErrors t m1 in (m', UploadData # effs, r))
      in
      case error of
        None \<Rightarrow> (m1, [], Inr RetNull)
      | Some _ \<Rightarrow>
         (case uploadData_throws cb of
            Some t \<Rightarrow> failed t
          | None \<Rightarrow>
             if isUsFromCache e number then
               (let (m', effs) = sendSyncMessageOnly e now m1
                in (m', UploadData # effs, Inr RetOther))
             else
               (case newPubKey_throws cb number of
                  Some x \<Rightarrow> failed (ThrownError x)
                | None \<Rightarrow>
                    if isPrivate conversation
                    then (m1, [UploadData, SendToPubKey number ChatMessage], Inr RetOther)
                    else (m1, [UploadData, SendToPubKey number ClosedGroupChatMessage],
                          Inr RetOther))))"

text \<open>
  \<open>retrySend()\<close>. In the partial group send every recipient has an \<open>async\<close> callback of
  its own: a \<open>PubKey\<close> constructor that throws there rejects that callback's promise and
  the others still send.
\<close>

definition outstanding :: "env \<Rightarrow> conversation \<Rightarrow> message \<Rightarrow> string list" where
  "outstanding e conversation m =
     filter (\<lambda>key. Some key \<notin> set (or_empty (sent_to m)))
       (intersection (or_empty (recipients m)) (getRecipients e conversation))"

definition retrySend ::
  "env \<Rightarrow> collab \<Rightarrow> nat \<Rightarrow> conversation \<Rightarrow> message \<Rightarrow>
     message \<times> effect list \<times> (thrown + retval)" where
  "retrySend e cb now conversation m =
     (if \<not> messaging e then (m, [], Inr RetNull)
      else
        let m0 = m\<lparr>errors := None\<rparr>;
            recipients = outstanding e conversation m0;
            failed = (\<lambda>t. let (m', effs, r) = catch_saveErrors t m0
                          in (m', SaveMessage m0 # UploadData # effs, r))
        in
        if isPublic conversation then
          (case uploadData_throws cb of
             Some t \<Rightarrow> failed t
           | None \<Rightarrow>
              (m0, [SaveMessage m0, UploadData, SendToGroup OpenGroupMessage], Inr RetOther))
        else if recipients = [] then (m0, [SaveMessage m0, SaveMessage m0], Inr RetOther)
        else
          (case uploadData_throws cb of
             Some t \<Rightarrow> failed t
           | None \<Rightarrow>
              if length recipients = 1 \<and> isUsFromCache e (hd recipients) then
                (let (m', effs) = sendSyncMessageOnly e now m0
                 in (m', SaveMessage m0 # UploadData # effs, Inr RetOther))
              else if isPrivate conversation then
                (case newPubKey_throws cb (hd recipients) of
                   Some x \<Rightarrow> failed (ThrownError x)
                 | None \<Rightarrow>
                    (m0, [SaveMessage m0, UploadData, SendToPubKey (hd recipients) ChatMessage],
                     Inr RetOther))
              else
                (m0,
                 SaveMessage m0 # UploadData #
                   map (\<lambda>r. SendToPubKey r ClosedGroupChatMessage)
                     (filter (\<lambda>r. newPubKey_throws cb r = None) recipients),
                 Inr RetOther)))"

section \<open>Conversation operations\<close>

text \<open>
  \<open>sendMessageJob(message)\<close>: the body of the \<open>try\<close> first, giving what it did and the
  error it threw, if any; every call of the message queue is awaited there, so its
  rejection is thrown inside the \<open>try\<close>.
\<close>

definition legacy_group_error :: js_error where
  "legacy_group_error =
     \<lparr>err_ctor = CtorError, err_name = ''Error'',
      err_message = ''Legacy group are not supported anymore. You need to recreate this group.'',
      err_code = None, err_number = None, err_reason = None, err_stack = None\<rparr>"

definition type_name :: "conv_type \<Rightarrow> string" where
  "type_name t = (case t of Private \<Rightarrow> ''private'' | Group \<Rightarrow> ''group'' | OtherType s \<Rightarrow> s)"

definition invalid_type_error :: "conv_type \<Rightarrow> js_error" where
  "invalid_type_error t =
     \<lparr>err_ctor = CtorTypeError, err_name = ''TypeError'',
      err_message = ''Invalid conversation type: '' @ [CHR 0x27] @ type_name t @ [CHR 0x27],
      err_code = None, err_number = None, err_reason = None, err_stack = None\<rparr>"

definition awaited :: "collab \<Rightarrow> effect \<Rightarrow> effect list \<times> thrown option" where
  "awaited cb eff = ([eff], send_rejects cb)"

definition sendMessageJob_try ::
  "collab \<Rightarrow> conversation \<Rightarrow> message \<Rightarrow> effect list \<times> thrown option" where
  "sendMessageJob_try cb c m =
     (case uploadData_throws cb of
        Some t \<Rightarrow> ([UploadData], Some t)
      | None \<Rightarrow>
         (let (effs, thrown) =
            (if isPublic c then awaited cb (SendToGroup OpenGroupMessage)
             else
               (case newPubKey_throws cb (conv_id c) of
                  Some x \<Rightarrow> ([], Some (ThrownError x))
                | None \<Rightarrow>
                   if isPrivate c then
                     (if groupInvitation m
                      then awaited cb (SendToPubKey (conv_id c) GroupInvitationMessage)
                      else awaited cb (SendToPubKey (conv_id c) ChatMessage))
                   else if isMediumGroup c then awaited cb (SendToGroup ClosedGroupChatMessage)
                   else if isClosedGroup c then ([], Some (ThrownError legacy_group_error))
                   else ([], Some (ThrownError (invalid_type_error (conv_type c))))))
          in (UploadData # effs, thrown)))"

text \<open>The job's promise: \<open>Inl\<close> when it rejects, \<open>Inr\<close> with the returned value when it
  resolves. What the \<open>try\<close> throws goes to the handler above.\<close>

definition sendMessageJob ::
  "collab \<Rightarrow> conversation \<Rightarrow> message \<Rightarrow> message \<times> effect list \<times> (thrown + retval)" where
  "sendMessageJob cb c m =
     (case sendMessageJob_try cb c m of
        (effs, None) \<Rightarrow> (m, effs, Inr RetOther)
      | (effs, Some t) \<Rightarrow>
          (let (m', effs', r) = catch_saveErrors t m in (m', effs @ effs', r)))"

text \<open>
  \<open>updateExpirationTimer(providedExpireTimer, providedSource, receivedAt, options)\<close>.
  \<open>blank\<close> stands for the defaults that \<open>initOutgoingMessage\<close> and
  \<open>initIncomingMessage\<close> (not in these files) give the attributes the code does not set.
\<close>

definition falsy :: "timer_val \<Rightarrow> bool" where
  "falsy v = (case v of Undefined \<Rightarrow> True | Null \<Rightarrow> True | Num n \<Rightarrow> n = 0)"

record timer_options =
  fromSync :: bool
  fromGroupUpdate :: bool

definition timer_notification ::
  "env \<Rightarrow> message \<Rightarrow> conversation \<Rightarrow> timer_val \<Rightarrow> string \<Rightarrow> nat \<Rightarrow> timer_options \<Rightarrow> message" where
  "timer_notification e blank c expireTimer' src timestamp options =
     (let m = blank\<lparr>
            unread := True, conversationId := conv_id c,
            sent_at := Some timestamp, received_at := timestamp,
            expirationTimerUpdate :=
              Some \<lparr>tu_expireTimer = expireTimer', tu_source = src,
                    tu_fromSync = fromSync options, tu_fromGroupUpdate = fromGroupUpdate options\<rparr>,
            expireTimer := Some 0,
            msg_type := (if isUsFromCache e src then Outgoing else Incoming),
            source := Some src, destination := Some (conv_id c)\<rparr>
      in if isOutgoing m then m\<lparr>recipients := Some (getRecipients e c)\<rparr> else m)"

text \<open>The last part of \<open>updateExpirationTimer\<close>, reached when the change was made
  locally: the change is sent to ourselves, to the peer or to the group. A falsy timer
  is deleted from the update that is sent, where it then reads \<open>undefined\<close>.\<close>

definition propagate_timer ::
  "env \<Rightarrow> collab \<Rightarrow> nat \<Rightarrow> conversation \<Rightarrow> message \<Rightarrow> timer_val \<Rightarrow>
     effect list \<times> (thrown + retval)" where
  "propagate_timer e cb now c message expireTimer' =
     (let update = ExpirationTimerUpdateMessage
                     (if falsy expireTimer' then Undefined else expireTimer') in
      if isMe e c then (snd (sendSyncMessageOnly e now message), Inr RetOther)
      else if conv_type c = Private then
        (case newPubKey_throws cb (conv_id c) of
           Some x \<Rightarrow> ([], Inl (ThrownError x))
         | None \<Rightarrow>
            ([SendToPubKey (conv_id c) update],
             case send_rejects cb of Some x \<Rightarrow> Inl x | None \<Rightarrow> Inr RetOther))
      else if members c = [ourPubKey e] then
        (snd (sendSyncMessageOnly e now message), Inr RetOther)
      else
        ([SendToGroup update],
         case send_rejects cb of Some x \<Rightarrow> Inl x | None \<Rightarrow> Inr RetOther))"

definition updateExpirationTimer ::
  "env \<Rightarrow> collab \<Rightarrow> message \<Rightarrow> nat \<Rightarrow> timer_val \<Rightarrow> string option \<Rightarrow> nat option \<Rightarrow>
     timer_options \<Rightarrow> conversation \<Rightarrow> conversation \<times> effect list \<times> (thrown + retval)" where
  "updateExpirationTimer e cb blank now providedExpireTimer providedSource receivedAt options c =
     (let expireTimer' = (if falsy providedExpireTimer then Null else providedExpireTimer) in
      if conv_expireTimer c = expireTimer' \<or> (falsy expireTimer' \<and> falsy (conv_expireTimer c))
      then (c, [], Inr RetNull)
      else
        let src = (case providedSource of None \<Rightarrow> ourPubKey e
                   | Some s \<Rightarrow> if s = [] then ourPubKey e else s);
            timestamp = (case receivedAt of None \<Rightarrow> now
                         | Some r \<Rightarrow> if r = 0 then now else r) - 1;
            c' = c\<lparr>conv_expireTimer := expireTimer'\<rparr>;
            message = timer_notification e blank c' expireTimer' src timestamp options;
            effs = [UpdateConversation c', SaveMessage message, MessageAdded message,
                    UpdateConversation c']
        in
        if truthy receivedAt then (c', effs, Inr RetOther)
        else (let (effs', r) = propagate_timer e cb now c' message expireTimer'
              in (c', effs @ effs', r)))"

text \<open>
  Modelled from the spec: the persistence queries \<open>getUnreadByConversation\<close> and
  \<open>getUnreadCountByConversation\<close> (\<open>window.Signal.Data\<close>, not in these files). The
  database holds the conversation's messages; the unread query returns those with the
  unread flag, the count query their number, and saving a message replaces the stored
  one of the same id.
\<close>

definition getUnread :: "message list \<Rightarrow> message list" where
  "getUnread db = filter unread db"

definition getUnreadCount :: "message list \<Rightarrow> nat" where
  "getUnreadCount db = length (filter unread db)"

definition saveMessage :: "message \<Rightarrow> message list \<Rightarrow> message list" where
  "saveMessage m db = map (\<lambda>x. if msg_id x = msg_id m then m else x) db"

text \<open>What \<open>markRead\<close> keeps of each message it marked: sender, timestamp, hasErrors.\<close>

record read_item =
  sender :: "string option"
  timestamp :: "nat option"
  item_hasErrors :: bool

definition read_item_of :: "message \<Rightarrow> read_item" where
  "read_item_of m =
     \<lparr>sender = source m, timestamp = sent_at m,
      item_hasErrors = (length (or_empty (errors m)) > 0)\<rparr>"

definition has_sender :: "read_item \<Rightarrow> bool" where
  "has_sender r = (case sender r of None \<Rightarrow> False | Some s \<Rightarrow> s \<noteq> [])"

text \<open>Marking the old unread messages one after the other: the database after the
  commits, the items read and the effects.\<close>

fun mark_all ::
  "nat \<Rightarrow> nat option \<Rightarrow> message list \<Rightarrow> message list \<Rightarrow>
     message list \<times> read_item list \<times> effect list" where
  "mark_all now readAt [] db = (db, [], [])"
| "mark_all now readAt (m # ms) db =
     (let (m', effs) = markRead_message now readAt m;
          (db', items, effs') = mark_all now readAt ms (saveMessage m' db)
      in (db', read_item_of m' # items, effs @ effs'))"

text \<open>\<open>_.groupBy(read, 'sender')\<close>, then one receipt per sender with the truthy
  timestamps of that sender's items.\<close>

definition receipts :: "read_item list \<Rightarrow> (string \<times> nat list) list" where
  "receipts items =
     map (\<lambda>s. (s, filter (\<lambda>t. t \<noteq> 0)
                    (concat (map (\<lambda>r. case timestamp r of None \<Rightarrow> [] | Some t \<Rightarrow> [t])
                               (filter (\<lambda>r. sender r = Some s) items)))))
       (uniq (concat (map (\<lambda>r. case sender r of None \<Rightarrow> [] | Some s \<Rightarrow> [s]) items)))"

record read_options =
  sendReadReceipts :: bool
  readAt :: "nat option"

text \<open>
  \<open>markRead(newestUnreadDate, providedOptions)\<close> of a conversation, on the database of
  its messages. The receipts are sent by callbacks that run one after the other up to
  their first \<open>await\<close>; a \<open>PubKey\<close> constructor that throws, or a send that rejects,
  rejects \<open>markRead\<close> itself.
\<close>

definition markRead ::
  "env \<Rightarrow> collab \<Rightarrow> nat \<Rightarrow> nat \<Rightarrow> read_options \<Rightarrow> message list \<Rightarrow> conversation \<Rightarrow>
     conversation \<times> message list \<times> effect list \<times> (thrown + unit)" where
  "markRead e cb now newestUnreadDate options db c =
     (let unreadMessages = getUnread db;
          oldUnread = filter (\<lambda>m. received_at m \<le> newestUnreadDate) unreadMessages;
          (db', items, effs) = mark_all now (readAt options) oldUnread db;
          read = filter has_sender items;
          realUnreadCount = getUnreadCount db'
      in
      if length read = 0 then
        (if unreadCount c \<noteq> length read
         then (let c' = c\<lparr>unreadCount := 0\<rparr>
               in (c', db', RemoveNotifications # effs @ [UpdateConversation c'], Inr ()))
         else (c, db', RemoveNotifications # effs, Inr ()))
      else
        let incoming = filter isIncoming unreadMessages;
            c1 = c\<lparr>unreadCount := realUnreadCount\<rparr>;
            stillUnread = filter (\<lambda>m. received_at m > newestUnreadDate) incoming;
            mentionRead = (\<not> list_ex mentionsUs stillUnread);
            c2 = (if mentionRead then c1\<lparr>mentionedUs := False\<rparr> else c1);
            effs2 = RemoveNotifications # effs @ [UpdateConversation c2];
            read' = filter (\<lambda>r. \<not> item_hasErrors r) read
        in
        if isPublic c2 then (c2, db', effs2, Inr ())
        else if isPrivate c2 \<and> read' \<noteq> [] \<and> sendReadReceipts options \<and> read_receipt_setting e
        then
          (let rs = receipts read';
               ok = filter (\<lambda>(s, ts). newPubKey_throws cb s = None) rs;
               sends = map (\<lambda>(s, ts). SendToPubKey s (ReadReceiptMessage ts)) ok;
               thrown = concat (map (\<lambda>(s, ts). case newPubKey_throws cb s of
                                      None \<Rightarrow> [] | Some x \<Rightarrow> [ThrownError x]) rs)
           in (c2, db', effs2 @ sends,
               case thrown of x # _ \<Rightarrow> Inl x
               | [] \<Rightarrow> (case send_rejects cb of
                          Some x \<Rightarrow> if sends = [] then Inr () else Inl x
                        | None \<Rightarrow> Inr ())))
        else (c2, db', effs2, Inr ()))"

section \<open>Typing presence of the remote side\<close>

text \<open>
  The model object around the attributes: \<open>typingTimer\<close> is a private field, not an
  attribute, so a commit does not persist it. A running timer is kept as the time at
  which it fires.
\<close>

record conversation_model =
  attributes :: conversation
  typingTimer :: "nat option"

definition commit :: "conversation_model \<Rightarrow> effect list" where
  "commit cm = [UpdateConversation (attributes cm)]"

definition notifyTyping ::
  "env \<Rightarrow> nat \<Rightarrow> bool \<Rightarrow> string \<Rightarrow> conversation_model \<Rightarrow> conversation_model \<times> effect list" where
  "notifyTyping e now isTyping sndr cm =
     (if isUsFromCache e sndr then (cm, [])
      else if \<not> isPrivate (attributes cm) then (cm, [])
      else
        let wasTyping = (typingTimer cm \<noteq> None);
            cm1 = (if typingTimer cm \<noteq> None then cm\<lparr>typingTimer := None\<rparr> else cm)
        in
        if isTyping then
          (let cm2 = cm1\<lparr>typingTimer := Some (now + 15 * 1000)\<rparr>
           in (cm2, if \<not> wasTyping then commit cm2 else []))
        else
          (let cm2 = cm1\<lparr>typingTimer := None\<rparr>
           in (cm2, if wasTyping then commit cm2 else [])))"

definition clearContactTypingTimer ::
  "conversation_model \<Rightarrow> conversation_model \<times> effect list" where
  "clearContactTypingTimer cm =
     (if typingTimer cm \<noteq> None
      then (let cm' = cm\<lparr>typingTimer := None\<rparr> in (cm', commit cm'))
      else (cm, []))"

text \<open>The clock reaching \<open>now\<close>: a timer that is due fires its callback.\<close>

definition timer_elapses :: "nat \<Rightarrow> conversation_model \<Rightarrow> conversation_model \<times> effect list" where
  "timer_elapses now cm =
     (case typingTimer cm of
        None \<Rightarrow> (cm, [])
      | Some due \<Rightarrow> if due \<le> now then clearContactTypingTimer cm else (cm, []))"

section \<open>Sample values\<close>

text \<open>Concrete inputs on which the theorems below are evaluated.\<close>

definition example_env :: env where
  "example_env = \<lparr>read_receipt_setting = True, messaging = True,
                   isUsFromCache = (\<lambda>k. k = ''05us''), ourPubKey = ''05us''\<rparr>"

definition example_message :: message where
  "example_message =
     \<lparr>msg_id = ''m1'', msg_type = Outgoing, conversationId = ''05alice'', source = None,
      errors = None, recipients = Some [''05alice''], read_by = None, delivered = None,
      delivered_to = None, sent = False, sent_to = None, calculatingPoW = False,
      unread = False, synced = False, sentSync = False, sync = False, sent_at = Some 100,
      received_at = 100, expireTimer = None, expirationStartTimestamp = None,
      expires_at = None, groupInvitation = False, destination = Some ''05alice'',
      expirationTimerUpdate = None, mentionsUs = False\<rparr>"

definition example_error :: js_error where
  "example_error =
     \<lparr>err_ctor = CtorError, err_name = ''SendMessageNetworkError'',
      err_message = ''Network is not available'', err_code = None,
      err_number = Some ''05bob'', err_reason = None, err_stack = Some ''at send''\<rparr>"

definition example_sent :: sent_message where
  "example_sent = \<lparr>device = Some ''05alice'', closedGroupEncryption = False,
                    openGroup = False, hasDataMessage = True\<rparr>"

definition example_collab :: collab where
  "example_collab = \<lparr>uploadData_throws = None, newPubKey_throws = (\<lambda>k. None),
                      send_rejects = None\<rparr>"

definition example_conversation :: conversation where
  "example_conversation =
     \<lparr>conv_id = ''05alice'', conv_type = Private, members = [], is_medium_group = False,
      conv_expireTimer = Num 0, unreadCount = 2, mentionedUs = False, profileSharing = False\<rparr>"

definition example_public :: conversation where
  "example_public =
     \<lparr>conv_id = ''publicChat:1@chat.example.org'', conv_type = Group, members = [],
      is_medium_group = False, conv_expireTimer = Num 0, unreadCount = 0,
      mentionedUs = False, profileSharing = True\<rparr>"

definition example_incoming :: "string \<Rightarrow> nat \<Rightarrow> message" where
  "example_incoming i t =
     example_message\<lparr>msg_id := i, msg_type := Incoming, source := Some ''05alice'',
                     unread := True, sent_at := Some t, received_at := t\<rparr>"

definition example_db :: "message list" where
  "example_db = [example_incoming ''a'' 5, example_incoming ''b'' 10]"

definition example_read_options :: read_options where
  "example_read_options = \<lparr>sendReadReceipts = False, readAt = None\<rparr>"

definition example_group :: conversation where
  "example_group =
     \<lparr>conv_id = ''05group'', conv_type = Group, members = [''05us'', ''05alice'', ''05bob''],
      is_medium_group = True, conv_expireTimer = Num 0, unreadCount = 0,
      mentionedUs = False, profileSharing = False\<rparr>"

definition example_partial :: message where
  "example_partial =
     example_message\<lparr>conversationId := ''05group'',
                     recipients := Some [''05alice'', ''05bob''],
                     sent_to := Some [Some ''05alice'']\<rparr>"

definition example_options :: timer_options where
  "example_options = \<lparr>fromSync = False, fromGroupUpdate = False\<rparr>"

definition example_throwing :: collab where
  "example_throwing = \<lparr>uploadData_throws = None, newPubKey_throws = (\<lambda>k. None),
                        send_rejects = Some (ThrownError example_error)\<rparr>"

definition example_model :: conversation_model where
  "example_model = \<lparr>attributes = example_conversation, typingTimer = None\<rparr>"

definition example_failed :: message where
  "example_failed =
     example_message\<lparr>errors :=
       Some [example_error,
             example_error\<lparr>err_name := ''TypeError''\<rparr>,
             example_error\<lparr>err_name := ''MessageError'', err_number := Some ''05alice''\<rparr>]\<rparr>"

section \<open>Reading effects\<close>

text \<open>The conversations committed and the messages announced by a list of effects,
  in order.\<close>

fun conversation_commits :: "effect list \<Rightarrow> conversation list" where
  "conversation_commits [] = []"
| "conversation_commits (UpdateConversation c # effs) = c # conversation_commits effs"
| "conversation_commits (_ # effs) = conversation_commits effs"

fun added_messages :: "effect list \<Rightarrow> message list" where
  "added_messages [] = []"
| "added_messages (MessageAdded m # effs) = m # added_messages effs"
| "added_messages (_ # effs) = added_messages effs"

section \<open>The job queue of a conversation\<close>

text \<open>
  \<open>queueJob\<close> chains promises: \<open>this.pending = previous.then(taskWithTimeout,
  taskWithTimeout)\<close>. The model keeps the promises that \<open>queueJob\<close> creates in a store,
  numbered in the order of the calls, with the field \<open>pending\<close> of the conversation and
  the queue of microtasks of the event loop.

  Modelled from the spec: \<open>createTaskWithTimeout\<close> (\<open>window.textsecure\<close>, not in these
  files). Each task is wrapped with a timeout; the wrapped task, once called, gives a
  promise that is fulfilled or rejected as the task's own, or rejected when the timeout
  comes first. A chained promise settles as the wrapped task it runs.
\<close>

datatype settlement = Fulfilled | Rejected | TimedOut

text \<open>
  The two callbacks \<open>queueJob\<close> registers with \<open>then\<close>: \<open>taskWithTimeout\<close> of the job,
  for both outcomes of the previous promise, and the clean-up
  \<open>() => { if (this.pending === current) delete this.pending }\<close>, for fulfilment only.
\<close>

datatype reaction = RunTask nat | DeletePending nat

text \<open>A chained promise: how it settled (\<open>None\<close> while pending), whether its task has
  been called, and the callbacks waiting for it.\<close>

record promise =
  settled :: "settlement option"
  started :: bool
  reactions :: "reaction list"

record job_queue =
  promises :: "nat \<Rightarrow> promise"
  queued :: nat
  pending :: "nat option"
  microtasks :: "reaction list"

definition new_promise :: "nat \<Rightarrow> promise" where
  "new_promise k = \<lparr>settled = None, started = False, reactions = [DeletePending k]\<rparr>"

definition initial_queue :: job_queue where
  "initial_queue = \<lparr>promises = new_promise, queued = 0, pending = None, microtasks = []\<rparr>"

text \<open>\<open>p.then(r, r)\<close>: on a settled promise the callback becomes a microtask at once,
  on a pending one it waits.\<close>

definition then_both :: "nat \<Rightarrow> reaction \<Rightarrow> job_queue \<Rightarrow> job_queue" where
  "then_both p r q =
     (case settled (promises q p) of
        Some _ \<Rightarrow> q\<lparr>microtasks := microtasks q @ [r]\<rparr>
      | None \<Rightarrow>
         q\<lparr>promises := (promises q)
              (p := (promises q p)\<lparr>reactions := reactions (promises q p) @ [r]\<rparr>)\<rparr>)"

text \<open>\<open>queueJob(callback)\<close>: \<open>previous\<close> is \<open>this.pending\<close> or, without one,
  \<open>Promise.resolve()\<close>, whose \<open>then\<close> queues the microtask directly.\<close>

definition queueJob :: "job_queue \<Rightarrow> job_queue" where
  "queueJob q =
     (let current = queued q;
          q1 = (case pending q of
                  None \<Rightarrow> q\<lparr>microtasks := microtasks q @ [RunTask current]\<rparr>
                | Some previous \<Rightarrow> then_both previous (RunTask current) q)
      in q1\<lparr>promises := (promises q1)(current := new_promise current),
             queued := Suc current, pending := Some current\<rparr>)"

text \<open>The event loop runs the first microtask: a task is called, or the clean-up
  deletes \<open>pending\<close> if it still is the promise the clean-up was made for.\<close>

definition run_microtask :: "job_queue \<Rightarrow> job_queue" where
  "run_microtask q =
     (case microtasks q of
        [] \<Rightarrow> q
      | RunTask k # rest \<Rightarrow>
          q\<lparr>microtasks := rest,
            promises := (promises q)(k := (promises q k)\<lparr>started := True\<rparr>)\<rparr>
      | DeletePending k # rest \<Rightarrow>
          q\<lparr>microtasks := rest,
            pending := (if pending q = Some k then None else pending q)\<rparr>)"

text \<open>The wrapped task of a started job settles; the callbacks that waited for its
  promise become microtasks, the clean-up only on fulfilment.\<close>

definition runs_on :: "settlement \<Rightarrow> reaction \<Rightarrow> bool" where
  "runs_on s r = (case r of RunTask _ \<Rightarrow> True | DeletePending _ \<Rightarrow> s = Fulfilled)"

definition task_settles :: "nat \<Rightarrow> settlement \<Rightarrow> job_queue \<Rightarrow> job_queue" where
  "task_settles k s q =
     (if k < queued q \<and> started (promises q k) \<and> settled (promises q k) = None
      then q\<lparr>promises := (promises q)(k := (promises q k)\<lparr>settled := Some s, reactions := []\<rparr>),
             microtasks := microtasks q @ filter (runs_on s) (reactions (promises q k))\<rparr>
      else q)"

text \<open>Everything that can happen to the queue, in any order: a call of \<open>queueJob\<close>, a
  microtask, a task settling. \<open>drain\<close> runs the microtasks until none is left.\<close>

datatype event = QueueJob | Microtask | TaskSettles nat settlement

definition step :: "job_queue \<Rightarrow> event \<Rightarrow> job_queue" where
  "step q ev =
     (case ev of QueueJob \<Rightarrow> queueJob q | Microtask \<Rightarrow> run_microtask q
      | TaskSettles k s \<Rightarrow> task_settles k s q)"

definition run :: "event list \<Rightarrow> job_queue" where
  "run evs = foldl step initial_queue evs"

function drain :: "job_queue \<Rightarrow> job_queue" where
  "drain q = (if microtasks q = [] then q else drain (run_microtask q))"
  by pat_completeness auto
termination
  by (relation "measure (\<lambda>q. length (microtasks q))")
     (auto simp: run_microtask_def split: list.splits reaction.splits)

definition is_settled :: "job_queue \<Rightarrow> nat \<Rightarrow> bool" where
  "is_settled q k = (settled (promises q k) \<noteq> None)"

definition is_started :: "job_queue \<Rightarrow> nat \<Rightarrow> bool" where
  "is_started q k = started (promises q k)"

definition is_running :: "job_queue \<Rightarrow> nat \<Rightarrow> bool" where
  "is_running q k = (is_started q k \<and> \<not> is_settled q k)"

text \<open>
  The invariant of the chain: a settled promise was started; a task is started or
  scheduled only when all earlier promises have settled; the callbacks waiting for
  promise \<open>k\<close> are its clean-up and the task of job \<open>k + 1\<close>; \<open>pending\<close> is the last
  promise, and is deleted only when all have settled; a scheduled clean-up belongs to a
  settled promise; and a job that has not started is scheduled or waits for the
  promise before it.
\<close>

definition inv1 :: "job_queue \<Rightarrow> bool" where
  "inv1 q = (\<forall>k<queued q. is_settled q k \<longrightarrow> is_started q k)"

definition inv2 :: "job_queue \<Rightarrow> bool" where
  "inv2 q = (\<forall>k<queued q. is_started q k \<or> RunTask k \<in> set (microtasks q) \<longrightarrow>
               (\<forall>j<k. is_settled q j))"

definition inv3 :: "job_queue \<Rightarrow> bool" where
  "inv3 q = (\<forall>k<queued q. \<forall>r\<in>set (reactions (promises q k)).
               r = DeletePending k \<or> (r = RunTask (Suc k) \<and> Suc k < queued q))"

definition inv4 :: "job_queue \<Rightarrow> bool" where
  "inv4 q = (\<forall>p. pending q = Some p \<longrightarrow> Suc p = queued q)"

definition inv5 :: "job_queue \<Rightarrow> bool" where
  "inv5 q = (pending q = None \<longrightarrow> (\<forall>j<queued q. is_settled q j))"

definition inv6 :: "job_queue \<Rightarrow> bool" where
  "inv6 q = (\<forall>k. DeletePending k \<in> set (microtasks q) \<longrightarrow> k < queued q \<and> is_settled q k)"

definition inv7 :: "job_queue \<Rightarrow> bool" where
  "inv7 q = (\<forall>k. RunTask k \<in> set (microtasks q) \<longrightarrow> k < queued q)"

definition inv8 :: "job_queue \<Rightarrow> bool" where
  "inv8 q = (\<forall>k<queued q. \<not> is_started q k \<longrightarrow>
               RunTask k \<in> set (microtasks q) \<or>
               (0 < k \<and> \<not> is_settled q (k - 1) \<and>
                RunTask k \<in> set (reactions (promises q (k - 1)))))"

definition chain_inv :: "job_queue \<Rightarrow> bool" where
  "chain_inv q = (inv1 q \<and> inv2 q \<and> inv3 q \<and> inv4 q \<and> inv5 q \<and> inv6 q \<and> inv7 q \<and> inv8 q)"

definition example_events :: "event list" where
  "example_events = [QueueJob, QueueJob, Microtask, TaskSettles 0 TimedOut]"

section \<open>Derived status\<close>

lemma hasErrors_saveErrors:
  "hasErrors (saveErrors p m) = (as_array p \<noteq> [] \<or> hasErrors m)"
  by (auto simp: hasErrors_def saveErrors_def or_empty_def)

text \<open>
  C5. The derived status follows a fixed priority. It is \<open>error\<close> exactly when the errors
  list is non-empty. Without errors, an incoming message has no status, and an outgoing
  one is \<open>read\<close> when the read-receipt setting is on and \<open>read_by\<close> is non-empty, else
  \<open>delivered\<close> when the delivered flag is set or \<open>delivered_to\<close> is non-empty, else
  \<open>sent\<close> when the sent flag is set or \<open>sent_to\<close> is non-empty, else \<open>pow\<close> while
  \<open>calculatingPoW\<close>, else \<open>sending\<close>.
\<close>

theorem getMessagePropStatus_priority:
  "(getMessagePropStatus e m = Some Error) = (or_empty (errors m) \<noteq> []) \<and>
   (or_empty (errors m) = [] \<longrightarrow>
      getMessagePropStatus e m =
        (if msg_type m = Incoming then None
         else if read_receipt_setting e \<and> or_empty (read_by m) \<noteq> [] then Some Read
         else if truthy (delivered m) \<or> or_empty (delivered_to m) \<noteq> [] then Some Delivered
         else if sent m \<or> or_empty (sent_to m) \<noteq> [] then Some Sent
         else if calculatingPoW m then Some PoW
         else Some Sending))"
proof -
  have t: "msg_type m \<noteq> Outgoing \<longleftrightarrow> msg_type m = Incoming"
    by (cases "msg_type m") simp_all
  show ?thesis
    by (simp add: getMessagePropStatus_def hasErrors_def isOutgoing_def t)
qed

theorem getMessagePropStatus_priority_witness:
  "or_empty (errors example_message) = [] \<and>
   getMessagePropStatus example_env example_message = Some Sending \<and>
   getMessagePropStatus example_env (example_message\<lparr>read_by := Some [''05alice'']\<rparr>) = Some Read"
  using getMessagePropStatus_priority [of example_env example_message]
    getMessagePropStatus_priority [of example_env "example_message\<lparr>read_by := Some [''05alice'']\<rparr>"]
  by (simp add: example_message_def example_env_def or_empty_def truthy_def)

text \<open>
  C2, as stated, fails: an outgoing message read by one recipient has the status
  \<open>read\<close>; once a failure for another recipient is recorded the status is \<open>error\<close>.
\<close>

theorem read_status_regresses_to_error:
  "isOutgoing (example_message\<lparr>read_by := Some [''05alice'']\<rparr>) \<and>
   getMessagePropStatus example_env (example_message\<lparr>read_by := Some [''05alice'']\<rparr>) = Some Read \<and>
   err_number example_error = Some ''05bob'' \<and>
   getMessagePropStatus example_env
     (saveErrors (One example_error) (example_message\<lparr>read_by := Some [''05alice'']\<rparr>)) = Some Error"
  by (simp add: getMessagePropStatus_def hasErrors_def isOutgoing_def saveErrors_def
      as_array_def or_empty_def example_message_def example_env_def example_error_def)

text \<open>
  C2, amended. Recording a failure on a message whose status is \<open>read\<close> makes the status
  \<open>error\<close>, since a non-empty errors list has priority over everything else. The
  watermark itself is not lost: \<open>read_by\<close>, \<open>delivered_to\<close>, \<open>sent_to\<close> and the flags
  are unchanged, and the status is \<open>read\<close> again as soon as the errors list is cleared
  (as \<open>retrySend\<close> does first).
\<close>

theorem saveErrors_overrides_read:
  assumes "getMessagePropStatus e m = Some Read" and "as_array p \<noteq> []"
  shows "getMessagePropStatus e (saveErrors p m) = Some Error \<and>
         read_by (saveErrors p m) = read_by m \<and>
         delivered_to (saveErrors p m) = delivered_to m \<and>
         delivered (saveErrors p m) = delivered m \<and>
         sent_to (saveErrors p m) = sent_to m \<and>
         sent (saveErrors p m) = sent m \<and>
         getMessagePropStatus e ((saveErrors p m)\<lparr>errors := None\<rparr>) = Some Read"
proof -
  from assms(1) have out: "isOutgoing m" and noerr: "\<not> hasErrors m"
    and rd: "read_receipt_setting e \<and> length (or_empty (read_by m)) > 0"
    by (auto simp: getMessagePropStatus_def split: if_splits)
  have "hasErrors (saveErrors p m)"
    using assms(2) by (simp add: hasErrors_saveErrors)
  then have 1: "getMessagePropStatus e (saveErrors p m) = Some Error"
    by (simp add: getMessagePropStatus_def)
  have 2: "getMessagePropStatus e ((saveErrors p m)\<lparr>errors := None\<rparr>) = Some Read"
    using out rd
    by (simp add: getMessagePropStatus_def hasErrors_def isOutgoing_def saveErrors_def or_empty_def)
  show ?thesis using 1 2 by (simp add: saveErrors_def)
qed

theorem saveErrors_overrides_read_witness:
  "getMessagePropStatus example_env (example_message\<lparr>read_by := Some [''05alice'']\<rparr>) = Some Read \<and>
   as_array (One example_error) \<noteq> [] \<and>
   getMessagePropStatus example_env
     (saveErrors (One example_error) (example_message\<lparr>read_by := Some [''05alice'']\<rparr>)) = Some Error \<and>
   getMessagePropStatus example_env
     ((saveErrors (One example_error) (example_message\<lparr>read_by := Some [''05alice'']\<rparr>))\<lparr>errors := None\<rparr>)
     = Some Read"
proof -
  have h1: "getMessagePropStatus example_env (example_message\<lparr>read_by := Some [''05alice'']\<rparr>) = Some Read"
    by (simp add: getMessagePropStatus_def hasErrors_def isOutgoing_def or_empty_def
        example_message_def example_env_def)
  have h2: "as_array (One example_error) \<noteq> []" by (simp add: as_array_def)
  show ?thesis using saveErrors_overrides_read [OF h1 h2] h1 h2 by simp
qed

section \<open>Expiration start\<close>

lemma on_change_start_start:
  "expirationStartTimestamp (fst (on_change_start before m)) = expirationStartTimestamp m"
  by (simp add: on_change_start_def setToExpire_def Let_def split: option.splits)

lemma on_change_start_eq:
  assumes "on_change_start before m = (m', effs)"
  shows "expirationStartTimestamp m' = expirationStartTimestamp m"
    and "errors m' = errors m"
    and "x \<in> set effs \<Longrightarrow> \<exists>y. x = SaveMessage y"
  using assms
  by (auto simp: on_change_start_def setToExpire_def Let_def split: option.splits if_splits)

lemma handleMessageSentSuccess_start:
  "expirationStartTimestamp (fst (handleMessageSentSuccess e now sm m)) = Some now"
  by (auto simp: handleMessageSentSuccess_def Let_def split: prod.splits
      dest!: on_change_start_eq(1))

lemma sendSyncMessageOnly_effects:
  assumes "sendSyncMessageOnly e now m = (m', effs)"
  shows "errors m' = errors m" and "x \<in> set effs \<Longrightarrow> \<exists>y. x = SaveMessage y"
proof -
  obtain m2 ch where
    o: "on_change_start m (m\<lparr>sent_to := Some [Some (ourPubKey e)], sent := True,
                              expirationStartTimestamp := Some now\<rparr>) = (m2, ch)"
    by (cases "on_change_start m (m\<lparr>sent_to := Some [Some (ourPubKey e)], sent := True,
                              expirationStartTimestamp := Some now\<rparr>)") auto
  note f = on_change_start_eq [OF o]
  have s: "sendSyncMessageOnly e now m =
      (fst (sendSyncMessage m2), ch @ SaveMessage m2 # snd (sendSyncMessage m2))"
    by (simp add: sendSyncMessageOnly_def Let_def o split: prod.splits)
  have e: "errors (fst (sendSyncMessage m2)) = errors m2"
    by (simp add: sendSyncMessage_def Let_def)
  have y: "\<And>z. z \<in> set (snd (sendSyncMessage m2)) \<Longrightarrow> \<exists>y. z = SaveMessage y"
    by (auto simp: sendSyncMessage_def Let_def split: if_splits)
  show "errors m' = errors m" using assms s e f(2) by simp
  show "x \<in> set effs \<Longrightarrow> \<exists>y. x = SaveMessage y"
    using assms s f(3) y by auto
qed

text \<open>
  C3 says the expiration start of a message is assigned once and never rewritten. The
  code of \<open>handleMessageSentSuccess\<close>, which "might be called several times for the same
  message", sets it to the current time on every call: handling a second delivery
  success at time 2000 moves the start from 1000 to 2000.
\<close>

theorem handleMessageSentSuccess_rewrites_start:
  "truthy (expireTimer (example_message\<lparr>expireTimer := Some 5\<rparr>)) \<and>
   expirationStartTimestamp
     (fst (handleMessageSentSuccess example_env 1000 example_sent
        (example_message\<lparr>expireTimer := Some 5\<rparr>))) = Some 1000 \<and>
   expirationStartTimestamp
     (fst (handleMessageSentSuccess example_env 2000 example_sent
        (fst (handleMessageSentSuccess example_env 1000 example_sent
           (example_message\<lparr>expireTimer := Some 5\<rparr>))))) = Some 2000"
  by (simp add: handleMessageSentSuccess_start truthy_def example_message_def)

text \<open>
  The other path does assign the start only once: \<open>markRead\<close> of a message sets it, to
  the earlier of the current time and \<open>readAt\<close>, only when the message has a positive
  timer and no start yet, and leaves it as it is otherwise.
\<close>

theorem markRead_message_start_once:
  "expirationStartTimestamp (fst (markRead_message now ra m)) =
     (if truthy (expireTimer m) \<and> \<not> truthy (expirationStartTimestamp m)
      then Some (min now (case ra of None \<Rightarrow> now | Some r \<Rightarrow> if r = 0 then now else r))
      else expirationStartTimestamp m)"
  by (auto simp: markRead_message_def Let_def split: prod.splits dest!: on_change_start_eq(1))

section \<open>Unread counter\<close>

lemma markRead_once:
  "markRead example_env example_collab 50 5 example_read_options example_db example_conversation
   = (example_conversation\<lparr>unreadCount := 1\<rparr>,
      [(example_incoming ''a'' 5)\<lparr>unread := False\<rparr>, example_incoming ''b'' 10],
      [RemoveNotifications, RemoveNotifications,
       SaveMessage ((example_incoming ''a'' 5)\<lparr>unread := False\<rparr>),
       UpdateConversation (example_conversation\<lparr>unreadCount := 1\<rparr>)],
      Inr ())"
  by (simp add: markRead_def getUnread_def getUnreadCount_def saveMessage_def example_db_def
      example_incoming_def example_message_def markRead_message_def truthy_def read_item_of_def
      has_sender_def or_empty_def isIncoming_def isPublic_def isPrivate_def
      on_change_start_def setToExpire_def
      example_conversation_def example_read_options_def Let_def)

text \<open>
  C4 says \<open>markRead(t)\<close> sets the unread counter to the result of the unread-count query,
  so that a second call with the same \<open>t\<close> changes nothing. With two unread messages
  received at 5 and 10, \<open>markRead(5)\<close> leaves the counter at 1, the count of the query;
  a second \<open>markRead(5)\<close> finds nothing to mark and resets the counter to 0, while the
  query still counts 1.
\<close>

theorem markRead_twice_resets_unreadCount:
  "(case markRead example_env example_collab 50 5 example_read_options example_db
           example_conversation of
      (c1, db1, effs1, r1) \<Rightarrow>
        (case markRead example_env example_collab 60 5 example_read_options db1 c1 of
           (c2, db2, effs2, r2) \<Rightarrow>
             unreadCount c1 = 1 \<and> getUnreadCount db1 = 1 \<and>
             unreadCount c2 = 0 \<and> getUnreadCount db2 = 1))"
  by (simp add: markRead_once)
     (simp add: markRead_def getUnread_def getUnreadCount_def saveMessage_def example_db_def
      example_incoming_def example_message_def markRead_message_def truthy_def read_item_of_def
      has_sender_def or_empty_def isIncoming_def isPublic_def isPrivate_def
      on_change_start_def setToExpire_def
      example_conversation_def example_read_options_def Let_def)

text \<open>
  What \<open>markRead\<close> of a conversation does to the counter in general: when at least one
  message with a sender was marked, the counter becomes the result of the unread-count
  query made after the marking; when none was, it becomes (or stays) 0, whatever the
  query returns.
\<close>

theorem markRead_unreadCount:
  "unreadCount (fst (markRead e cb now newestUnreadDate options db c)) =
     (case mark_all now (readAt options)
             (filter (\<lambda>m. received_at m \<le> newestUnreadDate) (getUnread db)) db of
        (db', items, effs) \<Rightarrow>
          if filter has_sender items = [] then 0 else getUnreadCount db')"
  by (simp add: markRead_def Let_def split: prod.splits)

section \<open>Retrying a send\<close>

lemma set_uniq: "set (uniq xs) = set xs"
  by (simp add: uniq_def)

lemma set_outstanding:
  "set (outstanding e c m) =
     {r. r \<in> set (or_empty (recipients m)) \<and> r \<in> set (getRecipients e c) \<and>
         Some r \<notin> set (or_empty (sent_to m))}"
  by (auto simp: outstanding_def intersection_def set_uniq)

lemma outstanding_errors: "outstanding e c (m\<lparr>errors := v\<rparr>) = outstanding e c m"
  by (simp add: outstanding_def)

lemma sendSyncMessageOnly_no_dispatch:
  assumes "sendSyncMessageOnly e now m = (m', effs)"
  shows "SendToPubKey r p \<notin> set effs" and "SendToGroup q \<notin> set effs"
    and "UploadData \<notin> set effs"
  using sendSyncMessageOnly_effects(2) [OF assms] by blast+

lemma catch_saveErrors_effects:
  assumes "catch_saveErrors t m = (m', effs, r)" and "x \<in> set effs"
  shows "\<exists>y. x = SaveMessage y"
  using assms
  by (auto simp: catch_saveErrors_def saveErrors_of_thrown_def split: thrown.splits)

text \<open>The four ways \<open>retrySend\<close> ends once the messaging layer is up.\<close>

lemma retrySend_offline:
  "\<not> messaging e \<Longrightarrow> retrySend e cb now c m = (m, [], Inr RetNull)"
  by (simp add: retrySend_def)

lemma retrySend_failed:
  assumes "messaging e" and "uploadData_throws cb = Some t"
    and "isPublic c \<or> outstanding e c m \<noteq> []"
  shows "retrySend e cb now c m =
           (case catch_saveErrors t (m\<lparr>errors := None\<rparr>) of
              (m', effs, r) \<Rightarrow> (m', SaveMessage (m\<lparr>errors := None\<rparr>) # UploadData # effs, r))"
  using assms by (auto simp: retrySend_def Let_def outstanding_errors)

lemma retrySend_public:
  assumes "messaging e" and "isPublic c" and "uploadData_throws cb = None"
  shows "retrySend e cb now c m =
           (m\<lparr>errors := None\<rparr>,
            [SaveMessage (m\<lparr>errors := None\<rparr>), UploadData, SendToGroup OpenGroupMessage],
            Inr RetOther)"
  using assms by (simp add: retrySend_def Let_def)

lemma retrySend_nobody:
  assumes "messaging e" and "\<not> isPublic c" and "outstanding e c m = []"
  shows "retrySend e cb now c m =
           (m\<lparr>errors := None\<rparr>,
            [SaveMessage (m\<lparr>errors := None\<rparr>), SaveMessage (m\<lparr>errors := None\<rparr>)],
            Inr RetOther)"
  using assms by (simp add: retrySend_def Let_def outstanding_errors)

lemma retrySend_sync_only:
  assumes "messaging e" and "\<not> isPublic c" and "outstanding e c m \<noteq> []"
    and "uploadData_throws cb = None"
    and "length (outstanding e c m) = 1 \<and> isUsFromCache e (hd (outstanding e c m))"
  shows "retrySend e cb now c m =
           (case sendSyncMessageOnly e now (m\<lparr>errors := None\<rparr>) of
              (m', effs) \<Rightarrow>
                (m', SaveMessage (m\<lparr>errors := None\<rparr>) # UploadData # effs, Inr RetOther))"
  using assms by (simp add: retrySend_def Let_def outstanding_errors)

lemma retrySend_private:
  assumes "messaging e" and "\<not> isPublic c" and "outstanding e c m \<noteq> []"
    and "uploadData_throws cb = None"
    and "\<not> (length (outstanding e c m) = 1 \<and> isUsFromCache e (hd (outstanding e c m)))"
    and "isPrivate c"
  shows "retrySend e cb now c m =
           (case newPubKey_throws cb (hd (outstanding e c m)) of
              Some x \<Rightarrow>
                (case catch_saveErrors (ThrownError x) (m\<lparr>errors := None\<rparr>) of
                   (m', effs, r) \<Rightarrow>
                     (m', SaveMessage (m\<lparr>errors := None\<rparr>) # UploadData # effs, r))
            | None \<Rightarrow>
                (m\<lparr>errors := None\<rparr>,
                 [SaveMessage (m\<lparr>errors := None\<rparr>), UploadData,
                  SendToPubKey (hd (outstanding e c m)) ChatMessage],
                 Inr RetOther))"
  using assms by (auto simp: retrySend_def Let_def outstanding_errors split: option.splits)

lemma retrySend_group:
  assumes "messaging e" and "\<not> isPublic c" and "outstanding e c m \<noteq> []"
    and "uploadData_throws cb = None"
    and "\<not> (length (outstanding e c m) = 1 \<and> isUsFromCache e (hd (outstanding e c m)))"
    and "\<not> isPrivate c"
  shows "retrySend e cb now c m =
           (m\<lparr>errors := None\<rparr>,
            SaveMessage (m\<lparr>errors := None\<rparr>) # UploadData #
              map (\<lambda>r. SendToPubKey r ClosedGroupChatMessage)
                (filter (\<lambda>r. newPubKey_throws cb r = None) (outstanding e c m)),
            Inr RetOther)"
  using assms by (auto simp: retrySend_def Let_def outstanding_errors)

lemma retrySend_effect:
  assumes "x \<in> set (fst (snd (retrySend e cb now c m)))"
  shows "(\<exists>y. x = SaveMessage y) \<or> x = UploadData \<or>
         (x = SendToGroup OpenGroupMessage \<and> messaging e \<and> isPublic c \<and>
          uploadData_throws cb = None) \<or>
         (\<exists>r p. x = SendToPubKey r p \<and> r \<in> set (outstanding e c m) \<and> \<not> isPublic c)"
proof (cases "messaging e")
  case False
  then show ?thesis using assms by (simp add: retrySend_offline)
next
  case on: True
  show ?thesis
  proof (cases "isPublic c")
    case pub: True
    show ?thesis
    proof (cases "uploadData_throws cb")
      case None
      then show ?thesis using assms on pub by (auto simp: retrySend_public [OF on pub])
    next
      case (Some t)
      obtain m' effs r' where k: "catch_saveErrors t (m\<lparr>errors := None\<rparr>) = (m', effs, r')"
        by (cases "catch_saveErrors t (m\<lparr>errors := None\<rparr>)") auto
      show ?thesis
        using assms catch_saveErrors_effects [OF k]
        by (auto simp: retrySend_failed [OF on Some] pub k)
    qed
  next
    case npub: False
    show ?thesis
    proof (cases "outstanding e c m = []")
      case True
      then show ?thesis using assms by (auto simp: retrySend_nobody [OF on npub])
    next
      case ne: False
      then have hd_in: "hd (outstanding e c m) \<in> set (outstanding e c m)" by simp
      show ?thesis
      proof (cases "uploadData_throws cb")
        case (Some t)
        obtain m' effs r' where k: "catch_saveErrors t (m\<lparr>errors := None\<rparr>) = (m', effs, r')"
          by (cases "catch_saveErrors t (m\<lparr>errors := None\<rparr>)") auto
        show ?thesis
          using assms catch_saveErrors_effects [OF k]
          by (auto simp: retrySend_failed [OF on Some] ne k)
      next
        case up: None
        show ?thesis
        proof (cases "length (outstanding e c m) = 1 \<and> isUsFromCache e (hd (outstanding e c m))")
          case True
          obtain m' effs where k: "sendSyncMessageOnly e now (m\<lparr>errors := None\<rparr>) = (m', effs)"
            by (cases "sendSyncMessageOnly e now (m\<lparr>errors := None\<rparr>)") auto
          show ?thesis
            using assms sendSyncMessageOnly_effects(2) [OF k]
            by (auto simp: retrySend_sync_only [OF on npub ne up True] k)
        next
          case ns: False
          show ?thesis
          proof (cases "isPrivate c")
            case True
            show ?thesis
            proof (cases "newPubKey_throws cb (hd (outstanding e c m))")
              case None
              then show ?thesis
                using assms hd_in npub
                by (auto simp: retrySend_private [OF on npub ne up ns True])
            next
              case (Some x)
              obtain m' effs r' where
                k: "catch_saveErrors (ThrownError x) (m\<lparr>errors := None\<rparr>) = (m', effs, r')"
                by (cases "catch_saveErrors (ThrownError x) (m\<lparr>errors := None\<rparr>)") auto
              show ?thesis
                using assms catch_saveErrors_effects [OF k]
                by (auto simp: retrySend_private [OF on npub ne up ns True] Some k)
            qed
          next
            case False
            then show ?thesis
              using assms npub by (auto simp: retrySend_group [OF on npub ne up ns False])
          qed
        qed
      qed
    qed
  qed
qed

text \<open>
  C6, as stated, fails for a public group: \<open>retrySend\<close> tests \<open>isPublic\<close> before it
  computes the outstanding recipients and re-sends to the group even when that set is
  empty.
\<close>

theorem retrySend_public_ignores_outstanding:
  "isPublic example_public \<and>
   outstanding example_env example_public (example_message\<lparr>recipients := Some []\<rparr>) = [] \<and>
   fst (snd (retrySend example_env example_collab 50 example_public
               (example_message\<lparr>recipients := Some []\<rparr>)))
     = [SaveMessage (example_message\<lparr>recipients := Some [], errors := None\<rparr>), UploadData,
        SendToGroup OpenGroupMessage]"
  by (simp add: retrySend_def outstanding_def intersection_def uniq_def or_empty_def Let_def
      isPublic_def example_public_def example_env_def example_collab_def example_message_def)

text \<open>
  C6, amended. \<open>retrySend\<close> sends to a single recipient only if it is an intended
  recipient, a current recipient of the conversation and not in \<open>sent_to\<close>. It sends to
  a group exactly when the messaging layer is up, the conversation is a public group and
  the upload succeeds: it then commits the message with its errors cleared, uploads and
  sends one open-group message, whatever the outstanding set is. With the messaging layer
  down it does nothing at all. With it up, a conversation that is not public and an
  empty outstanding set, it uploads and dispatches nothing: it only commits the message,
  twice, with its errors cleared. With it up, a conversation that is not public, a
  successful upload and an outstanding set that is neither empty nor just our own device,
  it dispatches: in a private conversation one chat message to the outstanding recipient
  (an invalid key is recorded as an error instead); otherwise a closed-group message to
  every outstanding recipient whose key is valid.
\<close>

theorem retrySend_outstanding_only:
  "(\<forall>r p. SendToPubKey r p \<in> set (fst (snd (retrySend e cb now c m))) \<longrightarrow>
       r \<in> set (or_empty (recipients m)) \<and> r \<in> set (getRecipients e c) \<and>
       Some r \<notin> set (or_empty (sent_to m))) \<and>
   (\<forall>p. (SendToGroup p \<in> set (fst (snd (retrySend e cb now c m)))) =
        (p = OpenGroupMessage \<and> messaging e \<and> isPublic c \<and> uploadData_throws cb = None)) \<and>
   (messaging e \<and> isPublic c \<and> uploadData_throws cb = None \<longrightarrow>
      retrySend e cb now c m =
        (m\<lparr>errors := None\<rparr>,
         [SaveMessage (m\<lparr>errors := None\<rparr>), UploadData, SendToGroup OpenGroupMessage],
         Inr RetOther)) \<and>
   (\<not> messaging e \<longrightarrow> retrySend e cb now c m = (m, [], Inr RetNull)) \<and>
   (messaging e \<and> \<not> isPublic c \<and> outstanding e c m = [] \<longrightarrow>
      retrySend e cb now c m =
        (m\<lparr>errors := None\<rparr>,
         [SaveMessage (m\<lparr>errors := None\<rparr>), SaveMessage (m\<lparr>errors := None\<rparr>)],
         Inr RetOther)) \<and>
   (messaging e \<and> \<not> isPublic c \<and> uploadData_throws cb = None \<and> outstanding e c m \<noteq> [] \<and>
    \<not> (length (outstanding e c m) = 1 \<and> isUsFromCache e (hd (outstanding e c m))) \<longrightarrow>
      retrySend e cb now c m =
        (if isPrivate c then
           (case newPubKey_throws cb (hd (outstanding e c m)) of
              Some x \<Rightarrow>
                (saveErrors (One x) (m\<lparr>errors := None\<rparr>),
                 [SaveMessage (m\<lparr>errors := None\<rparr>), UploadData,
                  SaveMessage (saveErrors (One x) (m\<lparr>errors := None\<rparr>))],
                 Inr RetNull)
            | None \<Rightarrow>
                (m\<lparr>errors := None\<rparr>,
                 [SaveMessage (m\<lparr>errors := None\<rparr>), UploadData,
                  SendToPubKey (hd (outstanding e c m)) ChatMessage],
                 Inr RetOther))
         else
           (m\<lparr>errors := None\<rparr>,
            SaveMessage (m\<lparr>errors := None\<rparr>) # UploadData #
              map (\<lambda>r. SendToPubKey r ClosedGroupChatMessage)
                (filter (\<lambda>r. newPubKey_throws cb r = None) (outstanding e c m)),
            Inr RetOther)))"
proof -
  let ?effs = "fst (snd (retrySend e cb now c m))"
  have 1: "\<forall>r p. SendToPubKey r p \<in> set ?effs \<longrightarrow>
       r \<in> set (or_empty (recipients m)) \<and> r \<in> set (getRecipients e c) \<and>
       Some r \<notin> set (or_empty (sent_to m))"
  proof (intro allI impI)
    fix r p assume "SendToPubKey r p \<in> set ?effs"
    then have "r \<in> set (outstanding e c m)"
      using retrySend_effect [of "SendToPubKey r p" e cb now c m] by auto
    then show "r \<in> set (or_empty (recipients m)) \<and> r \<in> set (getRecipients e c) \<and>
       Some r \<notin> set (or_empty (sent_to m))"
      by (simp add: set_outstanding)
  qed
  have 3: "messaging e \<and> isPublic c \<and> uploadData_throws cb = None \<longrightarrow>
      retrySend e cb now c m =
        (m\<lparr>errors := None\<rparr>,
         [SaveMessage (m\<lparr>errors := None\<rparr>), UploadData, SendToGroup OpenGroupMessage],
         Inr RetOther)"
    using retrySend_public by blast
  have 2: "\<forall>p. (SendToGroup p \<in> set ?effs) =
        (p = OpenGroupMessage \<and> messaging e \<and> isPublic c \<and> uploadData_throws cb = None)"
  proof (intro allI iffI)
    fix p assume "SendToGroup p \<in> set ?effs"
    then show "p = OpenGroupMessage \<and> messaging e \<and> isPublic c \<and> uploadData_throws cb = None"
      using retrySend_effect [of "SendToGroup p" e cb now c m] by auto
  next
    fix p assume "p = OpenGroupMessage \<and> messaging e \<and> isPublic c \<and> uploadData_throws cb = None"
    then show "SendToGroup p \<in> set ?effs" using 3 by simp
  qed
  have 4: "\<not> messaging e \<longrightarrow> retrySend e cb now c m = (m, [], Inr RetNull)"
    using retrySend_offline by blast
  have 5: "messaging e \<and> \<not> isPublic c \<and> outstanding e c m = [] \<longrightarrow>
      retrySend e cb now c m =
        (m\<lparr>errors := None\<rparr>,
         [SaveMessage (m\<lparr>errors := None\<rparr>), SaveMessage (m\<lparr>errors := None\<rparr>)],
         Inr RetOther)"
    using retrySend_nobody by blast
  have 6: "messaging e \<and> \<not> isPublic c \<and> uploadData_throws cb = None \<and> outstanding e c m \<noteq> [] \<and>
    \<not> (length (outstanding e c m) = 1 \<and> isUsFromCache e (hd (outstanding e c m))) \<longrightarrow>
      retrySend e cb now c m =
        (if isPrivate c then
           (case newPubKey_throws cb (hd (outstanding e c m)) of
              Some x \<Rightarrow>
                (saveErrors (One x) (m\<lparr>errors := None\<rparr>),
                 [SaveMessage (m\<lparr>errors := None\<rparr>), UploadData,
                  SaveMessage (saveErrors (One x) (m\<lparr>errors := None\<rparr>))],
                 Inr RetNull)
            | None \<Rightarrow>
                (m\<lparr>errors := None\<rparr>,
                 [SaveMessage (m\<lparr>errors := None\<rparr>), UploadData,
                  SendToPubKey (hd (outstanding e c m)) ChatMessage],
                 Inr RetOther))
         else
           (m\<lparr>errors := None\<rparr>,
            SaveMessage (m\<lparr>errors := None\<rparr>) # UploadData #
              map (\<lambda>r. SendToPubKey r ClosedGroupChatMessage)
                (filter (\<lambda>r. newPubKey_throws cb r = None) (outstanding e c m)),
            Inr RetOther))"
  proof (intro impI)
    assume h: "messaging e \<and> \<not> isPublic c \<and> uploadData_throws cb = None \<and>
      outstanding e c m \<noteq> [] \<and>
      \<not> (length (outstanding e c m) = 1 \<and> isUsFromCache e (hd (outstanding e c m)))"
    show "retrySend e cb now c m =
        (if isPrivate c then
           (case newPubKey_throws cb (hd (outstanding e c m)) of
              Some x \<Rightarrow>
                (saveErrors (One x) (m\<lparr>errors := None\<rparr>),
                 [SaveMessage (m\<lparr>errors := None\<rparr>), UploadData,
                  SaveMessage (saveErrors (One x) (m\<lparr>errors := None\<rparr>))],
                 Inr RetNull)
            | None \<Rightarrow>
                (m\<lparr>errors := None\<rparr>,
                 [SaveMessage (m\<lparr>errors := None\<rparr>), UploadData,
                  SendToPubKey (hd (outstanding e c m)) ChatMessage],
                 Inr RetOther))
         else
           (m\<lparr>errors := None\<rparr>,
            SaveMessage (m\<lparr>errors := None\<rparr>) # UploadData #
              map (\<lambda>r. SendToPubKey r ClosedGroupChatMessage)
                (filter (\<lambda>r. newPubKey_throws cb r = None) (outstanding e c m)),
            Inr RetOther))"
    proof (cases "isPrivate c")
      case True
      show ?thesis
        using h True retrySend_private [of e c m cb now]
        by (simp add: catch_saveErrors_def saveErrors_of_thrown_def split: option.splits)
    next
      case False
      show ?thesis
        using h False retrySend_group [of e c m cb now] by simp
    qed
  qed
  show ?thesis using 1 2 3 4 5 6 by (intro conjI)
qed

lemma retrySend_partial:
  "fst (snd (retrySend example_env example_collab 50 example_group example_partial)) =
     [SaveMessage (example_partial\<lparr>errors := None\<rparr>), UploadData,
      SendToPubKey ''05bob'' ClosedGroupChatMessage]"
  by (simp add: retrySend_def outstanding_def intersection_def uniq_def or_empty_def Let_def
      isPublic_def isPrivate_def getRecipients_def without_def example_group_def
      example_env_def example_collab_def example_partial_def example_message_def)

theorem retrySend_outstanding_only_witness:
  "SendToPubKey ''05bob'' ClosedGroupChatMessage
     \<in> set (fst (snd (retrySend example_env example_collab 50 example_group example_partial))) \<and>
   ''05bob'' \<in> set (or_empty (recipients example_partial)) \<and>
   ''05bob'' \<in> set (getRecipients example_env example_group) \<and>
   Some ''05bob'' \<notin> set (or_empty (sent_to example_partial)) \<and>
   SendToPubKey ''05alice'' ClosedGroupChatMessage
     \<notin> set (fst (snd (retrySend example_env example_collab 50 example_group example_partial))) \<and>
   \<not> messaging (example_env\<lparr>messaging := False\<rparr>) \<and>
   retrySend (example_env\<lparr>messaging := False\<rparr>) example_collab 50 example_group example_partial
     = (example_partial, [], Inr RetNull)"
proof -
  have h: "SendToPubKey ''05bob'' ClosedGroupChatMessage
     \<in> set (fst (snd (retrySend example_env example_collab 50 example_group example_partial)))"
    by (simp add: retrySend_partial)
  have a: "Some ''05alice'' \<in> set (or_empty (sent_to example_partial))"
    by (simp add: example_partial_def or_empty_def)
  have off: "\<not> messaging (example_env\<lparr>messaging := False\<rparr>)" by simp
  have 1: "''05bob'' \<in> set (or_empty (recipients example_partial)) \<and>
     ''05bob'' \<in> set (getRecipients example_env example_group) \<and>
     Some ''05bob'' \<notin> set (or_empty (sent_to example_partial)) \<and>
     SendToPubKey ''05alice'' ClosedGroupChatMessage
       \<notin> set (fst (snd (retrySend example_env example_collab 50 example_group example_partial)))"
    using h a retrySend_outstanding_only
      [of example_env example_collab 50 example_group example_partial]
    by blast
  have 2: "retrySend (example_env\<lparr>messaging := False\<rparr>) example_collab 50 example_group
       example_partial = (example_partial, [], Inr RetNull)"
    using off retrySend_outstanding_only
      [of "example_env\<lparr>messaging := False\<rparr>" example_collab 50 example_group example_partial]
    by blast
  show ?thesis using h 1 2 off by blast
qed

section \<open>Disappearing-message timer of a conversation\<close>

lemma conversation_commits_append:
  "conversation_commits (xs @ ys) = conversation_commits xs @ conversation_commits ys"
  by (induction xs rule: conversation_commits.induct) simp_all

lemma added_messages_append:
  "added_messages (xs @ ys) = added_messages xs @ added_messages ys"
  by (induction xs rule: added_messages.induct) simp_all

lemma saves_only_commits:
  assumes "\<And>x. x \<in> set effs \<Longrightarrow> \<exists>y. x = SaveMessage y"
  shows "conversation_commits effs = [] \<and> added_messages effs = []"
  using assms
proof (induction effs)
  case Nil
  then show ?case by simp
next
  case (Cons a effs)
  then obtain y where "a = SaveMessage y" by auto
  then show ?case using Cons by simp
qed

lemma sendSyncMessageOnly_commits:
  "conversation_commits (snd (sendSyncMessageOnly e now m)) = [] \<and>
   added_messages (snd (sendSyncMessageOnly e now m)) = []"
proof -
  obtain m' effs where s: "sendSyncMessageOnly e now m = (m', effs)"
    by (cases "sendSyncMessageOnly e now m") auto
  show ?thesis
    using saves_only_commits [of effs] sendSyncMessageOnly_effects(2) [OF s] s by auto
qed

lemma propagate_timer_commits:
  "conversation_commits (fst (propagate_timer e cb now c m t)) = [] \<and>
   added_messages (fst (propagate_timer e cb now c m t)) = []"
proof -
  have 1: "conversation_commits [SendToPubKey a b] = [] \<and> added_messages [SendToPubKey a b] = []"
    for a b by simp
  have 2: "conversation_commits [SendToGroup b] = [] \<and> added_messages [SendToGroup b] = []"
    for b by simp
  have 3: "conversation_commits [] = [] \<and> added_messages [] = []"
    by simp
  show ?thesis
    unfolding propagate_timer_def Let_def
    using 1 2 3 sendSyncMessageOnly_commits
    by (simp split: option.splits)
qed

lemma normalised_timer:
  "(conv_expireTimer c = (if falsy x then Null else x) \<or>
      (falsy (if falsy x then Null else x) \<and> falsy (conv_expireTimer c)))
   = (conv_expireTimer c = x \<or> (falsy x \<and> falsy (conv_expireTimer c)))"
  by (cases x; cases "conv_expireTimer c"; simp add: falsy_def)

lemma updateExpirationTimer_noop:
  assumes "conv_expireTimer c = x \<or> (falsy x \<and> falsy (conv_expireTimer c))"
  shows "updateExpirationTimer e cb blank now x src rcv opts c = (c, [], Inr RetNull)"
  unfolding updateExpirationTimer_def Let_def normalised_timer
  using assms by simp

lemma updateExpirationTimer_fst:
  assumes "\<not> (conv_expireTimer c = x \<or> (falsy x \<and> falsy (conv_expireTimer c)))"
  shows "fst (updateExpirationTimer e cb blank now x src rcv opts c)
           = c\<lparr>conv_expireTimer := (if falsy x then Null else x)\<rparr>"
  unfolding updateExpirationTimer_def Let_def normalised_timer
  using assms by (simp split: prod.splits)

lemma updateExpirationTimer_effects:
  assumes "\<not> (conv_expireTimer c = x \<or> (falsy x \<and> falsy (conv_expireTimer c)))"
  shows "\<exists>msg effs'.
           fst (snd (updateExpirationTimer e cb blank now x src rcv opts c)) =
             [UpdateConversation (c\<lparr>conv_expireTimer := (if falsy x then Null else x)\<rparr>),
              SaveMessage msg, MessageAdded msg,
              UpdateConversation (c\<lparr>conv_expireTimer := (if falsy x then Null else x)\<rparr>)] @ effs' \<and>
           conversation_commits effs' = [] \<and> added_messages effs' = []"
proof -
  define t where "t = (if falsy x then Null else x)"
  define c' where "c' = c\<lparr>conv_expireTimer := t\<rparr>"
  define msg where
    "msg = timer_notification e blank c' t
             (case src of None \<Rightarrow> ourPubKey e | Some s \<Rightarrow> if s = [] then ourPubKey e else s)
             ((case rcv of None \<Rightarrow> now | Some r \<Rightarrow> if r = 0 then now else r) - 1) opts"
  define effs' where
    "effs' = (if truthy rcv then [] else fst (propagate_timer e cb now c' msg t))"
  have n: "\<not> (conv_expireTimer c = t \<or> (falsy t \<and> falsy (conv_expireTimer c)))"
    using assms normalised_timer [of c x] by (simp add: t_def)
  have u: "fst (snd (updateExpirationTimer e cb blank now x src rcv opts c)) =
      [UpdateConversation c', SaveMessage msg, MessageAdded msg, UpdateConversation c'] @ effs'"
    unfolding updateExpirationTimer_def
    apply (fold t_def)
    apply (simp only: Let_def n if_False)
    apply (fold c'_def)
    apply (fold msg_def)
    apply (cases "truthy rcv")
     apply (simp add: effs'_def)
    apply (simp add: effs'_def split: prod.splits)
    done
  have z: "conversation_commits effs' = [] \<and> added_messages effs' = []"
    using propagate_timer_commits [of e cb now c' msg t] by (simp add: effs'_def)
  show ?thesis
    using u z unfolding c'_def t_def by blast
qed

lemma updateExpirationTimer_change:
  assumes "\<not> (conv_expireTimer c = x \<or> (falsy x \<and> falsy (conv_expireTimer c)))"
  shows "remdups (conversation_commits (fst (snd (updateExpirationTimer e cb blank now x src rcv opts c))))
           = [c\<lparr>conv_expireTimer := (if falsy x then Null else x)\<rparr>] \<and>
         length (added_messages (fst (snd (updateExpirationTimer e cb blank now x src rcv opts c)))) = 1"
proof -
  obtain msg effs' where
    e: "fst (snd (updateExpirationTimer e cb blank now x src rcv opts c)) =
             [UpdateConversation (c\<lparr>conv_expireTimer := (if falsy x then Null else x)\<rparr>),
              SaveMessage msg, MessageAdded msg,
              UpdateConversation (c\<lparr>conv_expireTimer := (if falsy x then Null else x)\<rparr>)] @ effs'"
    and c: "conversation_commits effs' = []" and a: "added_messages effs' = []"
    using updateExpirationTimer_effects [OF assms] by blast
  show ?thesis
    unfolding e conversation_commits_append added_messages_append c a
    by simp
qed

lemma updateExpirationTimer_sets:
  "conv_expireTimer (fst (updateExpirationTimer e cb blank now x src rcv opts c)) = x \<or>
   (falsy x \<and> falsy (conv_expireTimer (fst (updateExpirationTimer e cb blank now x src rcv opts c))))"
proof (cases "conv_expireTimer c = x \<or> (falsy x \<and> falsy (conv_expireTimer c))")
  case True
  then show ?thesis by (simp add: updateExpirationTimer_noop)
next
  case False
  then show ?thesis
    by (simp add: updateExpirationTimer_fst falsy_def)
qed

text \<open>
  C7. \<open>updateExpirationTimer\<close> called with the current value of \<open>expireTimer\<close>, or with
  any falsy value (0, \<open>null\<close>, \<open>undefined\<close>) while the current one is falsy, returns
  \<open>null\<close> with no effect at all: nothing is committed and no message is made. Hence,
  whatever the first call did, a second call with the same value has no effect; and a
  first call that does change the timer persists one new state of the conversation
  (every commit of the call carries that same state) and adds one timer notification.
\<close>

theorem updateExpirationTimer_idempotent:
  "(conv_expireTimer c = x \<or> (falsy x \<and> falsy (conv_expireTimer c)) \<longrightarrow>
      updateExpirationTimer e cb blank now x src rcv opts c = (c, [], Inr RetNull)) \<and>
   (case updateExpirationTimer e cb blank now x src rcv opts c of
      (c1, effs1, r1) \<Rightarrow>
        updateExpirationTimer e cb blank' now' x src' rcv' opts' c1 = (c1, [], Inr RetNull) \<and>
        (\<not> (conv_expireTimer c = x \<or> (falsy x \<and> falsy (conv_expireTimer c))) \<longrightarrow>
           c1 = c\<lparr>conv_expireTimer := (if falsy x then Null else x)\<rparr> \<and>
           remdups (conversation_commits effs1) = [c1] \<and>
           length (added_messages effs1) = 1))"
proof -
  obtain c1 effs1 r1 where u: "updateExpirationTimer e cb blank now x src rcv opts c = (c1, effs1, r1)"
    by (cases "updateExpirationTimer e cb blank now x src rcv opts c") auto
  have s: "conv_expireTimer c1 = x \<or> (falsy x \<and> falsy (conv_expireTimer c1))"
    using updateExpirationTimer_sets [of e cb blank now x src rcv opts c] u by simp
  have 2: "updateExpirationTimer e cb blank' now' x src' rcv' opts' c1 = (c1, [], Inr RetNull)"
    using s by (rule updateExpirationTimer_noop)
  have 3: "\<not> (conv_expireTimer c = x \<or> (falsy x \<and> falsy (conv_expireTimer c))) \<longrightarrow>
           c1 = c\<lparr>conv_expireTimer := (if falsy x then Null else x)\<rparr> \<and>
           remdups (conversation_commits effs1) = [c1] \<and>
           length (added_messages effs1) = 1"
    using updateExpirationTimer_change [of c x e cb blank now src rcv opts]
      updateExpirationTimer_fst [of c x e cb blank now src rcv opts] u by simp
  have 1: "conv_expireTimer c = x \<or> (falsy x \<and> falsy (conv_expireTimer c)) \<longrightarrow>
      updateExpirationTimer e cb blank now x src rcv opts c = (c, [], Inr RetNull)"
    using updateExpirationTimer_noop by blast
  show ?thesis
    unfolding u using 1 2 3 u by simp
qed

theorem updateExpirationTimer_idempotent_witness:
  "falsy Undefined \<and> falsy (conv_expireTimer example_conversation) \<and>
   updateExpirationTimer example_env example_collab example_message 50 Undefined None None
     example_options example_conversation = (example_conversation, [], Inr RetNull) \<and>
   \<not> (conv_expireTimer example_conversation = Num 60 \<or>
        (falsy (Num 60) \<and> falsy (conv_expireTimer example_conversation))) \<and>
   (case updateExpirationTimer example_env example_collab example_message 50 (Num 60) None None
           example_options example_conversation of
      (c1, effs1, r1) \<Rightarrow>
        updateExpirationTimer example_env example_collab example_message 70 (Num 60) None None
          example_options c1 = (c1, [], Inr RetNull) \<and>
        c1 = example_conversation\<lparr>conv_expireTimer := Num 60\<rparr> \<and>
        remdups (conversation_commits effs1) = [c1] \<and>
        length (added_messages effs1) = 1)"
proof -
  have h1: "falsy Undefined \<and> falsy (conv_expireTimer example_conversation)"
    by (simp add: falsy_def example_conversation_def)
  have h2: "\<not> (conv_expireTimer example_conversation = Num 60 \<or>
        (falsy (Num 60) \<and> falsy (conv_expireTimer example_conversation)))"
    by (simp add: falsy_def example_conversation_def)
  have f: "(if falsy (Num 60) then Null else Num 60) = Num 60"
    by (simp add: falsy_def)
  show ?thesis
    using h1 h2
      updateExpirationTimer_idempotent [where c = example_conversation and x = Undefined
        and e = example_env and cb = example_collab and blank = example_message and now = 50
        and src = None and rcv = None and opts = example_options]
      updateExpirationTimer_idempotent [where c = example_conversation and x = "Num 60"
        and e = example_env and cb = example_collab and blank = example_message and now = 50
        and src = None and rcv = None and opts = example_options
        and blank' = example_message and now' = 70 and src' = None and rcv' = None
        and opts' = example_options]
    unfolding f by (simp split: prod.splits)
qed

section \<open>The queued send job\<close>

lemma sendMessageJob_resolved:
  "snd (sendMessageJob_try cb c m) = None \<Longrightarrow>
     sendMessageJob cb c m = (m, fst (sendMessageJob_try cb c m), Inr RetOther)"
  by (cases "sendMessageJob_try cb c m") (simp add: sendMessageJob_def)

lemma sendMessageJob_records:
  assumes "snd (sendMessageJob_try cb c m) = Some (ThrownError x)"
  shows "sendMessageJob cb c m =
           (saveErrors (One x) m,
            fst (sendMessageJob_try cb c m) @ [SaveMessage (saveErrors (One x) m)],
            Inr RetNull)"
  using assms
  by (cases "sendMessageJob_try cb c m")
     (simp add: sendMessageJob_def catch_saveErrors_def saveErrors_of_thrown_def)

lemma sendMessageJob_rejects:
  assumes "snd (sendMessageJob_try cb c m) = Some ThrownNullish"
  shows "sendMessageJob cb c m =
           (m, fst (sendMessageJob_try cb c m), Inl (ThrownError constructor_type_error))"
  using assms
  by (cases "sendMessageJob_try cb c m")
     (simp add: sendMessageJob_def catch_saveErrors_def saveErrors_of_thrown_def)

lemma sendMessageJob_try_upload:
  "uploadData_throws cb = Some t \<Longrightarrow> sendMessageJob_try cb c m = ([UploadData], Some t)"
  by (simp add: sendMessageJob_try_def)

lemma sendMessageJob_try_dispatch:
  assumes "uploadData_throws cb = None" and "send_rejects cb = Some t"
    and "isPublic c \<or> (newPubKey_throws cb (conv_id c) = None \<and> (isPrivate c \<or> isMediumGroup c))"
  shows "snd (sendMessageJob_try cb c m) = Some t"
  using assms
  by (auto simp: sendMessageJob_try_def awaited_def Let_def split: option.splits)

text \<open>
  What does hold of the queued send job: an error object thrown by the upload, by an
  awaited send or by anything else in the \<open>try\<close> is put in front of the errors of the
  message, which is committed; the job resolves with \<open>null\<close> and the derived status of
  the message is \<open>error\<close>.
\<close>

theorem sendMessageJob_records_error_objects:
  "(uploadData_throws cb = Some (ThrownError x) \<or>
    (uploadData_throws cb = None \<and> send_rejects cb = Some (ThrownError x) \<and>
     (isPublic c \<or> (newPubKey_throws cb (conv_id c) = None \<and> (isPrivate c \<or> isMediumGroup c)))) \<or>
    snd (sendMessageJob_try cb c m) = Some (ThrownError x) \<longrightarrow>
    fst (sendMessageJob cb c m) = saveErrors (One x) m \<and>
    errors (fst (sendMessageJob cb c m)) = Some (pick_error x # or_empty (errors m)) \<and>
    getMessagePropStatus e (fst (sendMessageJob cb c m)) = Some Error \<and>
    last (fst (snd (sendMessageJob cb c m))) = SaveMessage (fst (sendMessageJob cb c m)) \<and>
    snd (snd (sendMessageJob cb c m)) = Inr RetNull) \<and>
   (snd (sendMessageJob_try cb c m) = None \<longrightarrow>
    fst (sendMessageJob cb c m) = m \<and> snd (snd (sendMessageJob cb c m)) = Inr RetOther)"
proof -
  have t: "uploadData_throws cb = Some (ThrownError x) \<or>
     (uploadData_throws cb = None \<and> send_rejects cb = Some (ThrownError x) \<and>
      (isPublic c \<or> (newPubKey_throws cb (conv_id c) = None \<and> (isPrivate c \<or> isMediumGroup c)))) \<or>
     snd (sendMessageJob_try cb c m) = Some (ThrownError x) \<Longrightarrow>
     snd (sendMessageJob_try cb c m) = Some (ThrownError x)"
    using sendMessageJob_try_upload [of cb "ThrownError x" c m] sendMessageJob_try_dispatch
    by auto
  have r: "snd (sendMessageJob_try cb c m) = Some (ThrownError x) \<Longrightarrow>
    fst (sendMessageJob cb c m) = saveErrors (One x) m \<and>
    errors (fst (sendMessageJob cb c m)) = Some (pick_error x # or_empty (errors m)) \<and>
    getMessagePropStatus e (fst (sendMessageJob cb c m)) = Some Error \<and>
    last (fst (snd (sendMessageJob cb c m))) = SaveMessage (fst (sendMessageJob cb c m)) \<and>
    snd (snd (sendMessageJob cb c m)) = Inr RetNull"
    by (simp add: sendMessageJob_records)
       (simp add: saveErrors_def as_array_def getMessagePropStatus_def hasErrors_def or_empty_def)
  have n: "snd (sendMessageJob_try cb c m) = None \<longrightarrow>
    fst (sendMessageJob cb c m) = m \<and> snd (snd (sendMessageJob cb c m)) = Inr RetOther"
    by (simp add: sendMessageJob_resolved)
  show ?thesis using t r n by blast
qed

theorem sendMessageJob_records_error_objects_witness:
  "uploadData_throws example_throwing = None \<and>
   send_rejects example_throwing = Some (ThrownError example_error) \<and>
   newPubKey_throws example_throwing (conv_id example_conversation) = None \<and>
   isPrivate example_conversation \<and>
   errors (fst (sendMessageJob example_throwing example_conversation example_message))
     = Some [pick_error example_error] \<and>
   getMessagePropStatus example_env
     (fst (sendMessageJob example_throwing example_conversation example_message)) = Some Error \<and>
   snd (snd (sendMessageJob example_throwing example_conversation example_message)) = Inr RetNull"
proof -
  have h: "uploadData_throws example_throwing = None \<and>
      send_rejects example_throwing = Some (ThrownError example_error) \<and>
      newPubKey_throws example_throwing (conv_id example_conversation) = None \<and>
      isPrivate example_conversation"
    by (simp add: example_throwing_def example_conversation_def isPrivate_def)
  have o: "or_empty (errors example_message) = []"
    by (simp add: example_message_def or_empty_def)
  have c: "errors (fst (sendMessageJob example_throwing example_conversation example_message))
        = Some (pick_error example_error # or_empty (errors example_message)) \<and>
      getMessagePropStatus example_env
        (fst (sendMessageJob example_throwing example_conversation example_message)) = Some Error \<and>
      snd (snd (sendMessageJob example_throwing example_conversation example_message)) = Inr RetNull"
    using h sendMessageJob_records_error_objects [of example_throwing example_error
        example_conversation example_message example_env]
    by blast
  show ?thesis
    using h c by (simp add: o)
qed

text \<open>
  C8 says that any exception thrown during the upload or the dispatch is caught inside
  the job and recorded on the message, and that the job resolves. When the upload, or the
  awaited send, rejects with \<open>undefined\<close>, the \<open>catch\<close> calls \<open>saveErrors(undefined)\<close>,
  which throws on \<open>e.constructor\<close>: the job rejects with that \<open>TypeError\<close>, the message
  has no error recorded, nothing is committed and its status stays \<open>sending\<close>.
\<close>

theorem sendMessageJob_rejects_on_undefined:
  "sendMessageJob (example_collab\<lparr>uploadData_throws := Some ThrownNullish\<rparr>)
     example_conversation example_message
     = (example_message, [UploadData], Inl (ThrownError constructor_type_error)) \<and>
   sendMessageJob (example_collab\<lparr>send_rejects := Some ThrownNullish\<rparr>)
     example_conversation example_message
     = (example_message, [UploadData, SendToPubKey ''05alice'' ChatMessage],
        Inl (ThrownError constructor_type_error)) \<and>
   errors (fst (sendMessageJob (example_collab\<lparr>uploadData_throws := Some ThrownNullish\<rparr>)
                 example_conversation example_message)) = None \<and>
   getMessagePropStatus example_env
     (fst (sendMessageJob (example_collab\<lparr>uploadData_throws := Some ThrownNullish\<rparr>)
             example_conversation example_message)) = Some Sending"
  by (simp add: sendMessageJob_def sendMessageJob_try_def awaited_def catch_saveErrors_def
      saveErrors_of_thrown_def Let_def example_collab_def example_conversation_def
      example_message_def isPublic_def isPrivate_def getMessagePropStatus_def hasErrors_def
      isOutgoing_def or_empty_def truthy_def example_env_def)

section \<open>Typing notifications of the remote side\<close>

text \<open>
  C9. In a private conversation, for a sender that is not us, \<open>notifyTyping\<close> commits
  exactly on the edges of the typing flag: \<open>isTyping = true\<close> while no timer was running,
  or \<open>isTyping = false\<close> while one was. The attributes (what a commit persists) never
  change. \<open>isTyping = true\<close> always (re)starts the timer, due 15 seconds later:
  before that time it does nothing, from then on it clears the typing presence and
  commits. \<open>isTyping = false\<close> clears the timer at once.
\<close>

theorem notifyTyping_edges:
  "\<not> isUsFromCache e sndr \<and> isPrivate (attributes cm) \<longrightarrow>
     (case notifyTyping e now isTyping sndr cm of
        (cm', effs) \<Rightarrow>
          attributes cm' = attributes cm \<and>
          effs = (if isTyping = (typingTimer cm = None)
                  then [UpdateConversation (attributes cm)] else []) \<and>
          typingTimer cm' = (if isTyping then Some (now + 15000) else None) \<and>
          (isTyping \<longrightarrow>
             timer_elapses t cm' =
               (if now + 15000 \<le> t
                then (cm'\<lparr>typingTimer := None\<rparr>, [UpdateConversation (attributes cm)])
                else (cm', []))))"
  by (auto simp: notifyTyping_def commit_def timer_elapses_def clearContactTypingTimer_def Let_def)

theorem notifyTyping_edges_witness:
  "\<not> isUsFromCache example_env ''05alice'' \<and> isPrivate (attributes example_model) \<and>
   notifyTyping example_env 1000 True ''05alice'' example_model
     = (example_model\<lparr>typingTimer := Some 16000\<rparr>, [UpdateConversation example_conversation]) \<and>
   notifyTyping example_env 5000 True ''05alice'' (example_model\<lparr>typingTimer := Some 16000\<rparr>)
     = (example_model\<lparr>typingTimer := Some 20000\<rparr>, []) \<and>
   timer_elapses 19999 (example_model\<lparr>typingTimer := Some 20000\<rparr>)
     = (example_model\<lparr>typingTimer := Some 20000\<rparr>, []) \<and>
   notifyTyping example_env 6000 False ''05alice'' (example_model\<lparr>typingTimer := Some 20000\<rparr>)
     = (example_model, [UpdateConversation example_conversation])"
proof -
  have h: "\<not> isUsFromCache example_env ''05alice'' \<and> isPrivate (attributes example_model)"
    by (simp add: example_env_def example_model_def example_conversation_def isPrivate_def)
  have a: "attributes example_model = example_conversation" "typingTimer example_model = None"
    by (simp_all add: example_model_def)
  have eq: "\<And>x y :: conversation_model.
     attributes x = attributes y \<Longrightarrow> typingTimer x = typingTimer y \<Longrightarrow> x = y"
    by simp
  have 1: "notifyTyping example_env 1000 True ''05alice'' example_model
     = (example_model\<lparr>typingTimer := Some 16000\<rparr>, [UpdateConversation example_conversation])"
    using h a notifyTyping_edges [where e = example_env and sndr = "''05alice''"
        and cm = example_model and now = 1000 and isTyping = True and t = 0]
    by (auto split: prod.splits intro!: eq)
  have 2: "notifyTyping example_env 5000 True ''05alice'' (example_model\<lparr>typingTimer := Some 16000\<rparr>)
     = (example_model\<lparr>typingTimer := Some 20000\<rparr>, [])"
    using h a notifyTyping_edges [where e = example_env and sndr = "''05alice''"
        and cm = "example_model\<lparr>typingTimer := Some 16000\<rparr>" and now = 5000
        and isTyping = True and t = 19999]
    by (auto split: prod.splits intro!: eq)
  have e2: "timer_elapses 19999 (example_model\<lparr>typingTimer := Some 20000\<rparr>)
     = (example_model\<lparr>typingTimer := Some 20000\<rparr>, [])"
    using h a notifyTyping_edges [where e = example_env and sndr = "''05alice''"
        and cm = "example_model\<lparr>typingTimer := Some 16000\<rparr>" and now = 5000
        and isTyping = True and t = 19999]
    unfolding 2 by simp
  have 3: "notifyTyping example_env 6000 False ''05alice'' (example_model\<lparr>typingTimer := Some 20000\<rparr>)
     = (example_model, [UpdateConversation example_conversation])"
    using h a notifyTyping_edges [where e = example_env and sndr = "''05alice''"
        and cm = "example_model\<lparr>typingTimer := Some 20000\<rparr>" and now = 6000
        and isTyping = False and t = 0]
    by (auto split: prod.splits intro!: eq)
  show ?thesis using h 1 2 e2 3 by simp
qed

section \<open>Resending to one recipient\<close>

lemma filter_none: "filter P xs = [] \<Longrightarrow> filter (\<lambda>x. \<not> P x) xs = xs"
  by (induction xs) (auto split: if_splits)

text \<open>\<open>removeOutgoingErrors\<close> keeps the errors that do not match, in order, and returns
  the first that does.\<close>

lemma removeOutgoingErrors_eq:
  "removeOutgoingErrors number m =
     (m\<lparr>errors := Some (filter (\<lambda>x. \<not> outgoing_error_for number x) (or_empty (errors m)))\<rparr>,
      case filter (outgoing_error_for number) (or_empty (errors m)) of
        [] \<Rightarrow> None | x # _ \<Rightarrow> Some x)"
  by (simp add: removeOutgoingErrors_def comp_def)

lemma resend_no_match:
  assumes "filter (outgoing_error_for number) (or_empty (errors m)) = []"
  shows "resend e cb now c number m = (m\<lparr>errors := Some (or_empty (errors m))\<rparr>, [], Inr RetNull)"
  using assms filter_none [OF assms]
  by (simp add: resend_def removeOutgoingErrors_eq)

text \<open>The ways \<open>resend\<close> ends once a matching error was found; \<open>m1\<close> is the message
  without the matching errors.\<close>

lemma resend_upload_fails:
  assumes "filter (outgoing_error_for number) (or_empty (errors m)) \<noteq> []"
    and "uploadData_throws cb = Some t"
  shows "resend e cb now c number m =
           (case catch_saveErrors t
                   (m\<lparr>errors := Some (filter (\<lambda>x. \<not> outgoing_error_for number x)
                                         (or_empty (errors m)))\<rparr>) of
              (m', effs, r) \<Rightarrow> (m', UploadData # effs, r))"
  using assms
  by (cases "filter (outgoing_error_for number) (or_empty (errors m))")
     (simp_all add: resend_def removeOutgoingErrors_eq Let_def)

lemma resend_sync_only:
  assumes "filter (outgoing_error_for number) (or_empty (errors m)) \<noteq> []"
    and "uploadData_throws cb = None" and "isUsFromCache e number"
  shows "resend e cb now c number m =
           (case sendSyncMessageOnly e now
                   (m\<lparr>errors := Some (filter (\<lambda>x. \<not> outgoing_error_for number x)
                                         (or_empty (errors m)))\<rparr>) of
              (m', effs) \<Rightarrow> (m', UploadData # effs, Inr RetOther))"
  using assms
  by (cases "filter (outgoing_error_for number) (or_empty (errors m))")
     (simp_all add: resend_def removeOutgoingErrors_eq Let_def)

lemma resend_bad_key:
  assumes "filter (outgoing_error_for number) (or_empty (errors m)) \<noteq> []"
    and "uploadData_throws cb = None" and "\<not> isUsFromCache e number"
    and "newPubKey_throws cb number = Some x"
  shows "resend e cb now c number m =
           (case catch_saveErrors (ThrownError x)
                   (m\<lparr>errors := Some (filter (\<lambda>x. \<not> outgoing_error_for number x)
                                         (or_empty (errors m)))\<rparr>) of
              (m', effs, r) \<Rightarrow> (m', UploadData # effs, r))"
  using assms
  by (cases "filter (outgoing_error_for number) (or_empty (errors m))")
     (simp_all add: resend_def removeOutgoingErrors_eq Let_def)

lemma resend_dispatches:
  assumes "filter (outgoing_error_for number) (or_empty (errors m)) \<noteq> []"
    and "uploadData_throws cb = None" and "\<not> isUsFromCache e number"
    and "newPubKey_throws cb number = None"
  shows "resend e cb now c number m =
           (m\<lparr>errors := Some (filter (\<lambda>x. \<not> outgoing_error_for number x) (or_empty (errors m)))\<rparr>,
            [UploadData,
             SendToPubKey number (if isPrivate c then ChatMessage else ClosedGroupChatMessage)],
            Inr RetOther)"
  using assms
  by (cases "filter (outgoing_error_for number) (or_empty (errors m))")
     (simp_all add: resend_def removeOutgoingErrors_eq Let_def)

lemma catch_saveErrors_message:
  assumes "catch_saveErrors t m = (m', effs, r)"
  shows "m' = m \<or> (\<exists>x. m' = saveErrors (One x) m)"
  using assms
  by (auto simp: catch_saveErrors_def saveErrors_of_thrown_def split: thrown.splits)

lemma resend_match:
  assumes ne: "filter (outgoing_error_for number) (or_empty (errors m)) \<noteq> []"
  shows "(\<exists>new. length new \<le> 1 \<and>
            errors (fst (resend e cb now c number m)) =
              Some (new @ filter (\<lambda>x. \<not> outgoing_error_for number x) (or_empty (errors m)))) \<and>
         (\<exists>rest. fst (snd (resend e cb now c number m)) = UploadData # rest) \<and>
         (\<forall>r p. SendToPubKey r p \<in> set (fst (snd (resend e cb now c number m))) \<longrightarrow> r = number) \<and>
         (\<forall>p. SendToGroup p \<notin> set (fst (snd (resend e cb now c number m))))"
proof -
  define others where
    "others = filter (\<lambda>x. \<not> outgoing_error_for number x) (or_empty (errors m))"
  define m1 where "m1 = m\<lparr>errors := Some others\<rparr>"
  have e0: "errors m1 = Some ([] @ others)" by (simp add: m1_def)
  have e1: "errors (saveErrors (One x) m1) = Some ([pick_error x] @ others)" for x
    by (simp add: m1_def saveErrors_def as_array_def or_empty_def)
  have l0: "length ([] :: js_error list) \<le> 1" by simp
  have l1: "length [z :: js_error] \<le> 1" for z by simp
  have caught: "\<exists>new. length new \<le> 1 \<and> errors m' = Some (new @ others)"
    if "catch_saveErrors t m1 = (m', effs, r)" for t m' effs r
    using catch_saveErrors_message [OF that] e0 e1 l0 l1 by metis
  show ?thesis
  proof (cases "uploadData_throws cb")
    case (Some t)
    obtain m' effs r where k: "catch_saveErrors t m1 = (m', effs, r)"
      by (cases "catch_saveErrors t m1") auto
    have R: "resend e cb now c number m = (m', UploadData # effs, r)"
      using resend_upload_fails [OF ne Some, of e now c] k by (simp add: m1_def others_def)
    show ?thesis
      unfolding R using caught [OF k] catch_saveErrors_effects [OF k]
      by (auto simp: others_def)
  next
    case up: None
    show ?thesis
    proof (cases "isUsFromCache e number")
      case True
      obtain m' effs where k: "sendSyncMessageOnly e now m1 = (m', effs)"
        by (cases "sendSyncMessageOnly e now m1") auto
      have R: "resend e cb now c number m = (m', UploadData # effs, Inr RetOther)"
        using resend_sync_only [OF ne up True, of now c] k by (simp add: m1_def others_def)
      have "errors m' = Some ([] @ others)"
        using sendSyncMessageOnly_effects(1) [OF k] e0 by simp
      then show ?thesis
        unfolding R using l0 sendSyncMessageOnly_effects(2) [OF k]
        by (auto simp: others_def)
    next
      case nus: False
      show ?thesis
      proof (cases "newPubKey_throws cb number")
        case (Some x)
        obtain m' effs r where k: "catch_saveErrors (ThrownError x) m1 = (m', effs, r)"
          by (cases "catch_saveErrors (ThrownError x) m1") auto
        have R: "resend e cb now c number m = (m', UploadData # effs, r)"
          using resend_bad_key [OF ne up nus Some, of now c] k by (simp add: m1_def others_def)
        show ?thesis
          unfolding R using caught [OF k] catch_saveErrors_effects [OF k]
          by (auto simp: others_def)
      next
        case None
        have R: "resend e cb now c number m =
            (m1, [UploadData,
                  SendToPubKey number (if isPrivate c then ChatMessage else ClosedGroupChatMessage)],
             Inr RetOther)"
          using resend_dispatches [OF ne up nus None, of now c] by (simp add: m1_def others_def)
        show ?thesis
          unfolding R using e0 l0 by (auto simp: others_def)
      qed
    qed
  qed
qed

text \<open>
  C10. \<open>resend(number)\<close> removes the recorded errors whose \<open>number\<close> is the recipient and
  whose \<open>name\<close> is \<open>MessageError\<close>, \<open>SendMessageNetworkError\<close> or
  \<open>OutgoingIdentityKeyError\<close>, and no other. When there is none, it returns \<open>null\<close>,
  uploads and dispatches nothing and leaves every recorded error in place. When there is
  one, it retries: the upload comes first; when the upload succeeds and the key of the
  recipient is valid, one message goes to that recipient, a chat message in a private
  conversation and a closed-group message otherwise; a recipient that is ourselves gets
  the sync-only handling instead. All the other errors stay, in order (behind the error
  of this attempt, if it fails), and nothing is ever sent to anyone but that recipient.
\<close>

theorem resend_only_matching:
  "(filter (outgoing_error_for number) (or_empty (errors m)) = [] \<longrightarrow>
      resend e cb now c number m =
        (m\<lparr>errors := Some (or_empty (errors m))\<rparr>, [], Inr RetNull)) \<and>
   (filter (outgoing_error_for number) (or_empty (errors m)) \<noteq> [] \<longrightarrow>
      (\<exists>new. length new \<le> 1 \<and>
            errors (fst (resend e cb now c number m)) =
              Some (new @ filter (\<lambda>x. \<not> outgoing_error_for number x) (or_empty (errors m)))) \<and>
      (\<exists>rest. fst (snd (resend e cb now c number m)) = UploadData # rest) \<and>
      (\<forall>r p. SendToPubKey r p \<in> set (fst (snd (resend e cb now c number m))) \<longrightarrow> r = number) \<and>
      (\<forall>p. SendToGroup p \<notin> set (fst (snd (resend e cb now c number m)))) \<and>
      (uploadData_throws cb = None \<and> \<not> isUsFromCache e number \<and>
       newPubKey_throws cb number = None \<longrightarrow>
         resend e cb now c number m =
           (m\<lparr>errors := Some (filter (\<lambda>x. \<not> outgoing_error_for number x) (or_empty (errors m)))\<rparr>,
            [UploadData,
             SendToPubKey number (if isPrivate c then ChatMessage else ClosedGroupChatMessage)],
            Inr RetOther)) \<and>
      (uploadData_throws cb = None \<and> isUsFromCache e number \<longrightarrow>
         resend e cb now c number m =
           (case sendSyncMessageOnly e now
                   (m\<lparr>errors := Some (filter (\<lambda>x. \<not> outgoing_error_for number x)
                                         (or_empty (errors m)))\<rparr>) of
              (m', effs) \<Rightarrow> (m', UploadData # effs, Inr RetOther)))) \<and>
   outgoing_error_for number x =
     (err_number x = Some number \<and>
      err_name x \<in> {''MessageError'', ''SendMessageNetworkError'', ''OutgoingIdentityKeyError''})"
proof -
  have 1: "filter (outgoing_error_for number) (or_empty (errors m)) = [] \<longrightarrow>
      resend e cb now c number m =
        (m\<lparr>errors := Some (or_empty (errors m))\<rparr>, [], Inr RetNull)"
    using resend_no_match by blast
  have 2: "filter (outgoing_error_for number) (or_empty (errors m)) \<noteq> [] \<longrightarrow>
      (\<exists>new. length new \<le> 1 \<and>
            errors (fst (resend e cb now c number m)) =
              Some (new @ filter (\<lambda>x. \<not> outgoing_error_for number x) (or_empty (errors m)))) \<and>
      (\<exists>rest. fst (snd (resend e cb now c number m)) = UploadData # rest) \<and>
      (\<forall>r p. SendToPubKey r p \<in> set (fst (snd (resend e cb now c number m))) \<longrightarrow> r = number) \<and>
      (\<forall>p. SendToGroup p \<notin> set (fst (snd (resend e cb now c number m))))"
    using resend_match [of number m e cb now c] by blast
  have 3: "filter (outgoing_error_for number) (or_empty (errors m)) \<noteq> [] \<longrightarrow>
      (uploadData_throws cb = None \<and> \<not> isUsFromCache e number \<and>
       newPubKey_throws cb number = None \<longrightarrow>
         resend e cb now c number m =
           (m\<lparr>errors := Some (filter (\<lambda>x. \<not> outgoing_error_for number x) (or_empty (errors m)))\<rparr>,
            [UploadData,
             SendToPubKey number (if isPrivate c then ChatMessage else ClosedGroupChatMessage)],
            Inr RetOther))"
    using resend_dispatches [of number m cb e now c] by blast
  have 4: "filter (outgoing_error_for number) (or_empty (errors m)) \<noteq> [] \<longrightarrow>
      (uploadData_throws cb = None \<and> isUsFromCache e number \<longrightarrow>
         resend e cb now c number m =
           (case sendSyncMessageOnly e now
                   (m\<lparr>errors := Some (filter (\<lambda>x. \<not> outgoing_error_for number x)
                                         (or_empty (errors m)))\<rparr>) of
              (m', effs) \<Rightarrow> (m', UploadData # effs, Inr RetOther)))"
    using resend_sync_only [of number m cb e now c] by blast
  have 5: "outgoing_error_for number x =
     (err_number x = Some number \<and>
      err_name x \<in> {''MessageError'', ''SendMessageNetworkError'', ''OutgoingIdentityKeyError''})"
    by (auto simp: outgoing_error_for_def)
  show ?thesis using 1 2 3 4 5 by blast
qed

theorem resend_only_matching_witness:
  "filter (outgoing_error_for ''05carol'') (or_empty (errors example_failed)) = [] \<and>
   resend example_env example_collab 50 example_conversation ''05carol'' example_failed
     = (example_failed, [], Inr RetNull) \<and>
   filter (outgoing_error_for ''05bob'') (or_empty (errors example_failed)) \<noteq> [] \<and>
   uploadData_throws example_collab = None \<and> \<not> isUsFromCache example_env ''05bob'' \<and>
   newPubKey_throws example_collab ''05bob'' = None \<and>
   resend example_env example_collab 50 example_conversation ''05bob'' example_failed
     = (example_failed\<lparr>errors :=
          Some [example_error\<lparr>err_name := ''TypeError''\<rparr>,
                example_error\<lparr>err_name := ''MessageError'', err_number := Some ''05alice''\<rparr>]\<rparr>,
        [UploadData, SendToPubKey ''05bob'' ChatMessage], Inr RetOther) \<and>
   outgoing_error_for ''05bob'' example_error \<and>
   \<not> outgoing_error_for ''05bob'' (example_error\<lparr>err_name := ''TypeError''\<rparr>)"
proof -
  have h1: "filter (outgoing_error_for ''05carol'') (or_empty (errors example_failed)) = []"
    by (simp add: example_failed_def example_message_def example_error_def or_empty_def
        outgoing_error_for_def)
  have h2: "filter (outgoing_error_for ''05bob'') (or_empty (errors example_failed)) \<noteq> []"
    by (simp add: example_failed_def example_message_def example_error_def or_empty_def
        outgoing_error_for_def)
  have h3: "uploadData_throws example_collab = None \<and> \<not> isUsFromCache example_env ''05bob'' \<and>
      newPubKey_throws example_collab ''05bob'' = None"
    by (simp add: example_collab_def example_env_def)
  have p: "isPrivate example_conversation"
    by (simp add: isPrivate_def example_conversation_def)
  have s: "example_failed\<lparr>errors := Some (or_empty (errors example_failed))\<rparr> = example_failed"
    by (simp add: example_failed_def example_message_def or_empty_def)
  have o: "filter (\<lambda>x. \<not> outgoing_error_for ''05bob'' x) (or_empty (errors example_failed))
      = [example_error\<lparr>err_name := ''TypeError''\<rparr>,
         example_error\<lparr>err_name := ''MessageError'', err_number := Some ''05alice''\<rparr>]"
    by (simp add: example_failed_def example_message_def example_error_def or_empty_def
        outgoing_error_for_def)
  have n: "err_number example_error = Some ''05bob''"
    "err_name example_error = ''SendMessageNetworkError''"
    by (simp_all add: example_error_def)
  have 1: "resend example_env example_collab 50 example_conversation ''05carol'' example_failed
     = (example_failed, [], Inr RetNull)"
    using h1 s resend_only_matching [where number = "''05carol''" and m = example_failed
        and e = example_env and cb = example_collab and now = 50 and c = example_conversation]
    by simp
  have 2: "resend example_env example_collab 50 example_conversation ''05bob'' example_failed
     = (example_failed\<lparr>errors := Some (filter (\<lambda>x. \<not> outgoing_error_for ''05bob'' x)
                                        (or_empty (errors example_failed)))\<rparr>,
        [UploadData,
         SendToPubKey ''05bob''
           (if isPrivate example_conversation then ChatMessage else ClosedGroupChatMessage)],
        Inr RetOther)"
    using h2 h3 resend_only_matching [where number = "''05bob''" and m = example_failed
        and e = example_env and cb = example_collab and now = 50 and c = example_conversation]
    by blast
  have 3: "outgoing_error_for ''05bob'' example_error"
    using n resend_only_matching [where number = "''05bob''" and x = example_error]
    by simp
  have 4: "\<not> outgoing_error_for ''05bob'' (example_error\<lparr>err_name := ''TypeError''\<rparr>)"
    using resend_only_matching [where number = "''05bob''"
        and x = "example_error\<lparr>err_name := ''TypeError''\<rparr>"]
    by simp
  show ?thesis using h1 h2 h3 1 2 [unfolded o] p 3 4 by simp
qed

section \<open>Serial execution of queued jobs\<close>

lemma chain_inv_initial: "chain_inv initial_queue"
  by (simp add: chain_inv_def initial_queue_def inv1_def inv2_def inv3_def inv4_def inv5_def
      inv6_def inv7_def inv8_def)

lemma settled_closed:
  assumes "inv1 q" and "inv2 q" and "k < queued q" and "is_settled q k" and "j \<le> k"
  shows "is_settled q j"
proof (cases "j = k")
  case True
  then show ?thesis using assms by simp
next
  case False
  then have "j < k" using assms by simp
  moreover have "is_started q k" using assms by (simp add: inv1_def)
  ultimately show ?thesis using assms by (auto simp: inv2_def)
qed

lemma run_microtask_RunTask:
  assumes "microtasks q = RunTask k # rest"
  shows "queued (run_microtask q) = queued q"
    and "pending (run_microtask q) = pending q"
    and "microtasks (run_microtask q) = rest"
    and "is_settled (run_microtask q) j = is_settled q j"
    and "is_started (run_microtask q) j = (j = k \<or> is_started q j)"
    and "reactions (promises (run_microtask q) j) = reactions (promises q j)"
  using assms by (auto simp: run_microtask_def is_settled_def is_started_def)

lemma run_microtask_DeletePending:
  assumes "microtasks q = DeletePending k # rest"
  shows "queued (run_microtask q) = queued q"
    and "pending (run_microtask q) = (if pending q = Some k then None else pending q)"
    and "microtasks (run_microtask q) = rest"
    and "is_settled (run_microtask q) j = is_settled q j"
    and "is_started (run_microtask q) j = is_started q j"
    and "reactions (promises (run_microtask q) j) = reactions (promises q j)"
  using assms by (auto simp: run_microtask_def is_settled_def is_started_def)

lemma chain_inv_run_microtask:
  assumes "chain_inv q"
  shows "chain_inv (run_microtask q)"
proof (cases "microtasks q")
  case Nil
  then show ?thesis using assms by (simp add: run_microtask_def)
next
  case (Cons r rest)
  have i: "inv1 q" "inv2 q" "inv3 q" "inv4 q" "inv5 q" "inv6 q" "inv7 q" "inv8 q"
    using assms by (simp_all add: chain_inv_def)
  show ?thesis
  proof (cases r)
    case (RunTask k)
    note m = Cons [unfolded RunTask]
    note f = run_microtask_RunTask [OF m]
    have 1: "inv1 (run_microtask q)"
      using i(1) i(7) m by (auto simp: inv1_def f)
    have 2: "inv2 (run_microtask q)"
      using i(2) m by (auto simp: inv2_def f)
    have 3: "inv3 (run_microtask q)"
      using i(3) by (simp add: inv3_def f)
    have 4: "inv4 (run_microtask q)"
      using i(4) by (simp add: inv4_def f)
    have 5: "inv5 (run_microtask q)"
      using i(5) by (simp add: inv5_def f)
    have 6: "inv6 (run_microtask q)"
      using i(6) m by (simp add: inv6_def f)
    have 7: "inv7 (run_microtask q)"
      using i(7) m by (simp add: inv7_def f)
    have 8: "inv8 (run_microtask q)"
      using i(8) m by (auto simp: inv8_def f)
    show ?thesis using 1 2 3 4 5 6 7 8 by (simp add: chain_inv_def)
  next
    case (DeletePending k)
    note m = Cons [unfolded DeletePending]
    note f = run_microtask_DeletePending [OF m]
    have 1: "inv1 (run_microtask q)"
      using i(1) by (simp add: inv1_def f)
    have 2: "inv2 (run_microtask q)"
      using i(2) m by (auto simp: inv2_def f)
    have 3: "inv3 (run_microtask q)"
      using i(3) by (simp add: inv3_def f)
    have 4: "inv4 (run_microtask q)"
      using i(4) by (simp add: inv4_def f)
    have 5: "inv5 (run_microtask q)"
    proof (cases "pending q = Some k")
      case True
      then have n: "Suc k = queued q" using i(4) by (simp add: inv4_def)
      have s: "is_settled q k" using i(6) m by (simp add: inv6_def)
      have "\<forall>j<queued q. is_settled q j"
        using settled_closed [OF i(1) i(2) _ s] n by auto
      then show ?thesis by (simp add: inv5_def f)
    next
      case False
      then show ?thesis using i(5) by (simp add: inv5_def f)
    qed
    have 6: "inv6 (run_microtask q)"
      using i(6) m by (simp add: inv6_def f)
    have 7: "inv7 (run_microtask q)"
      using i(7) m by (simp add: inv7_def f)
    have 8: "inv8 (run_microtask q)"
      using i(8) m by (auto simp: inv8_def f)
    show ?thesis using 1 2 3 4 5 6 7 8 by (simp add: chain_inv_def)
  qed
qed

lemma task_settles_enabled:
  assumes "k < queued q" and "is_started q k" and "\<not> is_settled q k"
  shows "queued (task_settles k s q) = queued q"
    and "pending (task_settles k s q) = pending q"
    and "microtasks (task_settles k s q) = microtasks q @ filter (runs_on s) (reactions (promises q k))"
    and "is_settled (task_settles k s q) j = (j = k \<or> is_settled q j)"
    and "is_started (task_settles k s q) j = is_started q j"
    and "reactions (promises (task_settles k s q) j) = (if j = k then [] else reactions (promises q j))"
  using assms by (auto simp: task_settles_def is_settled_def is_started_def)

lemma task_settles_disabled:
  assumes "\<not> (k < queued q \<and> is_started q k \<and> \<not> is_settled q k)"
  shows "task_settles k s q = q"
  using assms by (auto simp: task_settles_def is_settled_def is_started_def)

lemma chain_inv_task_settles:
  assumes "chain_inv q"
  shows "chain_inv (task_settles k s q)"
proof (cases "k < queued q \<and> is_started q k \<and> \<not> is_settled q k")
  case False
  then show ?thesis using assms by (simp add: task_settles_disabled)
next
  case True
  then have en: "k < queued q" "is_started q k" "\<not> is_settled q k" by simp_all
  note f = task_settles_enabled [OF en]
  have i: "inv1 q" "inv2 q" "inv3 q" "inv4 q" "inv5 q" "inv6 q" "inv7 q" "inv8 q"
    using assms by (simp_all add: chain_inv_def)
  have rk: "\<And>r. r \<in> set (reactions (promises q k)) \<Longrightarrow>
              r = DeletePending k \<or> (r = RunTask (Suc k) \<and> Suc k < queued q)"
    using i(3) en(1) by (auto simp: inv3_def)
  have before: "\<And>j. j < k \<Longrightarrow> is_settled q j"
    using i(2) en by (auto simp: inv2_def)
  have 1: "inv1 (task_settles k s q)"
    using i(1) en by (auto simp: inv1_def f)
  have 2: "inv2 (task_settles k s q)"
    unfolding inv2_def f
  proof (intro allI impI)
    fix a j
    assume a: "a < queued q"
      and h: "is_started q a \<or> RunTask a \<in> set (microtasks q @ filter (runs_on s) (reactions (promises q k)))"
      and j: "j < a"
    show "j = k \<or> is_settled q j"
    proof (cases "is_started q a \<or> RunTask a \<in> set (microtasks q)")
      case True
      then show ?thesis using i(2) a j by (auto simp: inv2_def)
    next
      case False
      then have "RunTask a \<in> set (reactions (promises q k))" using h by auto
      then have "a = Suc k" using rk by blast
      then show ?thesis using j before by (cases "j = k") auto
    qed
  qed
  have 3: "inv3 (task_settles k s q)"
    using i(3) by (simp add: inv3_def f)
  have 4: "inv4 (task_settles k s q)"
    using i(4) by (simp add: inv4_def f)
  have 5: "inv5 (task_settles k s q)"
    using i(5) by (simp add: inv5_def f)
  have 6: "inv6 (task_settles k s q)"
    unfolding inv6_def f
  proof (intro allI impI)
    fix a
    assume "DeletePending a \<in> set (microtasks q @ filter (runs_on s) (reactions (promises q k)))"
    then consider "DeletePending a \<in> set (microtasks q)"
      | "DeletePending a \<in> set (reactions (promises q k))" by auto
    then show "a < queued q \<and> (a = k \<or> is_settled q a)"
    proof cases
      case 1
      then show ?thesis using i(6) by (simp add: inv6_def)
    next
      case 2
      then have "a = k" using rk by blast
      then show ?thesis using en by simp
    qed
  qed
  have 7: "inv7 (task_settles k s q)"
    unfolding inv7_def f
  proof (intro allI impI)
    fix a
    assume "RunTask a \<in> set (microtasks q @ filter (runs_on s) (reactions (promises q k)))"
    then consider "RunTask a \<in> set (microtasks q)"
      | "RunTask a \<in> set (reactions (promises q k))" by auto
    then show "a < queued q"
    proof cases
      case 1
      then show ?thesis using i(7) by (simp add: inv7_def)
    next
      case 2
      then show ?thesis using rk by blast
    qed
  qed
  have 8: "inv8 (task_settles k s q)"
    unfolding inv8_def f
  proof (intro allI impI)
    fix a
    assume a: "a < queued q" and ns: "\<not> is_started q a"
    then have d: "RunTask a \<in> set (microtasks q) \<or>
               (0 < a \<and> \<not> is_settled q (a - 1) \<and>
                RunTask a \<in> set (reactions (promises q (a - 1))))"
      using i(8) by (simp add: inv8_def)
    show "RunTask a \<in> set (microtasks q @ filter (runs_on s) (reactions (promises q k))) \<or>
          (0 < a \<and> \<not> (a - 1 = k \<or> is_settled q (a - 1)) \<and>
           RunTask a \<in> set (if a - 1 = k then [] else reactions (promises q (a - 1))))"
    proof (cases "a - 1 = k")
      case True
      then show ?thesis using d en by (auto simp: runs_on_def)
    next
      case False
      then show ?thesis using d by auto
    qed
  qed
  show ?thesis using 1 2 3 4 5 6 7 8 by (simp add: chain_inv_def)
qed

lemma queueJob_frame:
  shows "queued (queueJob q) = Suc (queued q)"
    and "pending (queueJob q) = Some (queued q)"
    and "j \<noteq> queued q \<Longrightarrow> is_settled (queueJob q) j = is_settled q j"
    and "j \<noteq> queued q \<Longrightarrow> is_started (queueJob q) j = is_started q j"
    and "\<not> is_settled (queueJob q) (queued q)"
    and "\<not> is_started (queueJob q) (queued q)"
    and "reactions (promises (queueJob q) (queued q)) = [DeletePending (queued q)]"
  by (auto simp: queueJob_def then_both_def Let_def is_settled_def is_started_def new_promise_def
      split: option.splits)

lemma queueJob_microtasks:
  "microtasks (queueJob q) =
     microtasks q @
       (if pending q = None \<or> (\<exists>p. pending q = Some p \<and> is_settled q p)
        then [RunTask (queued q)] else [])"
  by (auto simp: queueJob_def then_both_def Let_def is_settled_def split: option.splits)

lemma queueJob_reactions:
  "j \<noteq> queued q \<Longrightarrow>
   reactions (promises (queueJob q) j) =
     reactions (promises q j) @
       (if pending q = Some j \<and> \<not> is_settled q j then [RunTask (queued q)] else [])"
  by (auto simp: queueJob_def then_both_def Let_def is_settled_def split: option.splits)

lemma chain_inv_queueJob:
  assumes "chain_inv q"
  shows "chain_inv (queueJob q)"
proof -
  have i: "inv1 q" "inv2 q" "inv3 q" "inv4 q" "inv5 q" "inv6 q" "inv7 q" "inv8 q"
    using assms by (simp_all add: chain_inv_def)
  note f = queueJob_frame [where q = q]
  note fm = queueJob_microtasks [where q = q]
  note fr = queueJob_reactions [where q = q]
  have old: "\<And>j. j < queued q \<Longrightarrow> j \<noteq> queued q" by simp
  have all_settled:
    "pending q = None \<or> (\<exists>p. pending q = Some p \<and> is_settled q p) \<Longrightarrow> j < queued q \<Longrightarrow>
       is_settled q j" for j
  proof -
    assume c: "pending q = None \<or> (\<exists>p. pending q = Some p \<and> is_settled q p)" and j: "j < queued q"
    show "is_settled q j"
    proof (cases "pending q")
      case None
      then show ?thesis using i(5) j by (simp add: inv5_def)
    next
      case (Some p)
      then have n: "Suc p = queued q" using i(4) by (simp add: inv4_def)
      have s: "is_settled q p" using c Some by simp
      show ?thesis using settled_closed [OF i(1) i(2) _ s, of j] n j by simp
    qed
  qed
  have 1: "inv1 (queueJob q)"
    unfolding inv1_def f
  proof (intro allI impI)
    fix k assume "k < Suc (queued q)" and s: "is_settled (queueJob q) k"
    then have "k < queued q" using f(5) by (cases "k = queued q") auto
    then show "is_started (queueJob q) k"
      using i(1) s by (simp add: inv1_def f)
  qed
  have 2: "inv2 (queueJob q)"
    unfolding inv2_def f
  proof (intro allI impI)
    fix k j
    assume k: "k < Suc (queued q)"
      and h: "is_started (queueJob q) k \<or> RunTask k \<in> set (microtasks (queueJob q))"
      and j: "j < k"
    have jn: "j \<noteq> queued q" "j < queued q" using j k by simp_all
    show "is_settled (queueJob q) j"
    proof (cases "k = queued q")
      case True
      then have "RunTask (queued q) \<in> set (microtasks (queueJob q))"
        using h f(6) by simp
      then have "pending q = None \<or> (\<exists>p. pending q = Some p \<and> is_settled q p)"
        using i(7) unfolding fm by (auto simp: inv7_def split: if_splits)
      then show ?thesis using all_settled jn by (simp add: f)
    next
      case False
      then have kq: "k < queued q" using k by simp
      have "is_started q k \<or> RunTask k \<in> set (microtasks q)"
        using h False unfolding fm by (auto simp: f split: if_splits)
      then show ?thesis using i(2) kq j jn by (auto simp: inv2_def f)
    qed
  qed
  have 3: "inv3 (queueJob q)"
    unfolding inv3_def f
  proof (intro allI impI ballI)
    fix k r
    assume k: "k < Suc (queued q)" and r: "r \<in> set (reactions (promises (queueJob q) k))"
    show "r = DeletePending k \<or> (r = RunTask (Suc k) \<and> Suc k < Suc (queued q))"
    proof (cases "k = queued q")
      case True
      then show ?thesis using r f(7) by simp
    next
      case False
      then have kq: "k < queued q" using k by simp
      from r False consider "r \<in> set (reactions (promises q k))"
        | "r = RunTask (queued q)" "pending q = Some k"
        unfolding fr [OF False] by (auto split: if_splits)
      then show ?thesis
      proof cases
        case 1
        then show ?thesis using i(3) kq by (auto simp: inv3_def)
      next
        case 2
        then have "Suc k = queued q" using i(4) by (simp add: inv4_def)
        then show ?thesis using 2 by simp
      qed
    qed
  qed
  have 4: "inv4 (queueJob q)"
    by (simp add: inv4_def f)
  have 5: "inv5 (queueJob q)"
    by (simp add: inv5_def f)
  have 6: "inv6 (queueJob q)"
    unfolding inv6_def
  proof (intro allI impI)
    fix k assume "DeletePending k \<in> set (microtasks (queueJob q))"
    then have "DeletePending k \<in> set (microtasks q)"
      unfolding fm by (auto split: if_splits)
    then have "k < queued q \<and> is_settled q k" using i(6) by (simp add: inv6_def)
    then show "k < queued (queueJob q) \<and> is_settled (queueJob q) k"
      by (simp add: f)
  qed
  have 7: "inv7 (queueJob q)"
    unfolding inv7_def
  proof (intro allI impI)
    fix k assume "RunTask k \<in> set (microtasks (queueJob q))"
    then have "RunTask k \<in> set (microtasks q) \<or> k = queued q"
      unfolding fm by (auto split: if_splits)
    then show "k < queued (queueJob q)"
      using i(7) by (auto simp: inv7_def f)
  qed
  have 8: "inv8 (queueJob q)"
    unfolding inv8_def f
  proof (intro allI impI)
    fix k assume k: "k < Suc (queued q)" and ns: "\<not> is_started (queueJob q) k"
    show "RunTask k \<in> set (microtasks (queueJob q)) \<or>
          (0 < k \<and> \<not> is_settled (queueJob q) (k - 1) \<and>
           RunTask k \<in> set (reactions (promises (queueJob q) (k - 1))))"
    proof (cases "k = queued q")
      case True
      show ?thesis
      proof (cases "pending q = None \<or> (\<exists>p. pending q = Some p \<and> is_settled q p)")
        case c: True
        then show ?thesis unfolding fm using True by simp
      next
        case c: False
        then obtain p where p: "pending q = Some p" "\<not> is_settled q p" by auto
        then have n: "Suc p = queued q" using i(4) by (simp add: inv4_def)
        then have pk: "p = k - 1" "0 < k" "p \<noteq> queued q" using True by simp_all
        have "RunTask k \<in> set (reactions (promises (queueJob q) p))"
          unfolding fr [OF pk(3)] using p True by simp
        moreover have "\<not> is_settled (queueJob q) p"
          using p pk by (simp add: f)
        ultimately show ?thesis using pk by simp
      qed
    next
      case False
      then have kq: "k < queued q" using k by simp
      have "\<not> is_started q k" using ns False by (simp add: f)
      then have d: "RunTask k \<in> set (microtasks q) \<or>
               (0 < k \<and> \<not> is_settled q (k - 1) \<and>
                RunTask k \<in> set (reactions (promises q (k - 1))))"
        using i(8) kq by (simp add: inv8_def)
      show ?thesis
      proof (cases "RunTask k \<in> set (microtasks q)")
        case True
        then show ?thesis unfolding fm by simp
      next
        case F: False
        then have x: "0 < k" "\<not> is_settled q (k - 1)"
          "RunTask k \<in> set (reactions (promises q (k - 1)))" using d by simp_all
        have ne: "k - 1 \<noteq> queued q" using kq by simp
        have "\<not> is_settled (queueJob q) (k - 1)" using x ne by (simp add: f)
        moreover have "RunTask k \<in> set (reactions (promises (queueJob q) (k - 1)))"
          unfolding fr [OF ne] using x by simp
        ultimately show ?thesis using x by simp
      qed
    qed
  qed
  show ?thesis using 1 2 3 4 5 6 7 8 by (simp add: chain_inv_def)
qed

lemma chain_inv_step: "chain_inv q \<Longrightarrow> chain_inv (step q ev)"
  by (cases ev)
     (simp_all add: step_def chain_inv_queueJob chain_inv_run_microtask chain_inv_task_settles)

lemma chain_inv_foldl: "chain_inv q \<Longrightarrow> chain_inv (foldl step q evs)"
  by (induction evs arbitrary: q) (simp_all add: chain_inv_step)

lemma chain_inv_run: "chain_inv (run evs)"
  by (simp add: run_def chain_inv_foldl chain_inv_initial)

lemma chain_inv_drain: "chain_inv q \<Longrightarrow> chain_inv (drain q)"
proof (induction q rule: drain.induct)
  case (1 q)
  show ?case
  proof (cases "microtasks q = []")
    case True
    then show ?thesis using "1.prems" by simp
  next
    case False
    then show ?thesis
      using "1.IH" [OF False] "1.prems" chain_inv_run_microtask
      by (subst drain.simps) simp
  qed
qed

lemma drain_empty: "microtasks (drain q) = []"
proof (induction q rule: drain.induct)
  case (1 q)
  show ?case
  proof (cases "microtasks q = []")
    case True
    then show ?thesis by simp
  next
    case False
    then show ?thesis using "1.IH" [OF False] by (subst drain.simps) simp
  qed
qed

lemma run_microtask_frame:
  "queued (run_microtask q) = queued q \<and>
   is_settled (run_microtask q) j = is_settled q j \<and>
   (is_started q j \<longrightarrow> is_started (run_microtask q) j)"
  by (auto simp: run_microtask_def is_settled_def is_started_def
      split: list.splits reaction.splits)

lemma drain_frame:
  "queued (drain q) = queued q \<and>
   is_settled (drain q) j = is_settled q j \<and>
   (is_started q j \<longrightarrow> is_started (drain q) j)"
proof (induction q rule: drain.induct)
  case (1 q)
  show ?case
  proof (cases "microtasks q = []")
    case True
    then show ?thesis by simp
  next
    case False
    then show ?thesis
      using "1.IH" [OF False] run_microtask_frame [of q j]
      by (subst (1 2 3) drain.simps) simp
  qed
qed

lemma drain_starts:
  "RunTask k \<in> set (microtasks q) \<Longrightarrow> is_started (drain q) k"
proof (induction q rule: drain.induct)
  case (1 q)
  then have ne: "microtasks q \<noteq> []" by auto
  then obtain r rest where m: "microtasks q = r # rest" by (cases "microtasks q") auto
  show ?case
  proof (cases "r = RunTask k")
    case True
    then have "is_started (run_microtask q) k"
      using m by (simp add: run_microtask_def is_started_def)
    then have "is_started (drain (run_microtask q)) k"
      using drain_frame by blast
    then show ?thesis using ne by (subst drain.simps) simp
  next
    case False
    then have "RunTask k \<in> set rest" using "1.prems" m by simp
    moreover have "microtasks (run_microtask q) = rest"
      using m by (simp add: run_microtask_def split: reaction.splits)
    ultimately have "is_started (drain (run_microtask q)) k"
      using "1.IH" [OF ne] by simp
    then show ?thesis using ne by (subst drain.simps) simp
  qed
qed

lemma chain_order:
  assumes "chain_inv q" and "j < k" and "k < queued q" and "is_started q k"
  shows "is_settled q j"
  using assms by (auto simp: chain_inv_def inv2_def)

lemma chain_exclusive:
  assumes "chain_inv q" and "j < queued q" and "k < queued q"
    and "is_running q j" and "is_running q k"
  shows "j = k"
proof (rule ccontr)
  assume "j \<noteq> k"
  then consider "j < k" | "k < j" by linarith
  then show False
  proof cases
    case 1
    then show ?thesis using chain_order [OF assms(1) 1 assms(3)] assms(4,5)
      by (simp add: is_running_def)
  next
    case 2
    then show ?thesis using chain_order [OF assms(1) 2 assms(2)] assms(4,5)
      by (simp add: is_running_def)
  qed
qed

lemma chain_progress:
  assumes "chain_inv q" and "k < queued q" and "\<forall>j<k. is_settled q j"
  shows "is_started (drain q) k"
proof (cases "is_started q k")
  case True
  then show ?thesis using drain_frame by blast
next
  case False
  then have "RunTask k \<in> set (microtasks q) \<or>
               (0 < k \<and> \<not> is_settled q (k - 1) \<and>
                RunTask k \<in> set (reactions (promises q (k - 1))))"
    using assms(1,2) by (simp add: chain_inv_def inv8_def)
  moreover have "0 < k \<Longrightarrow> is_settled q (k - 1)" using assms(3) by simp
  ultimately have "RunTask k \<in> set (microtasks q)" by blast
  then show ?thesis by (rule drain_starts)
qed

lemma queued_step: "queued (step q ev) = queued q + (if ev = QueueJob then 1 else 0)"
  by (cases ev)
     (simp_all add: step_def queueJob_frame(1) run_microtask_def task_settles_def
       split: list.splits reaction.splits)

lemma queued_foldl:
  "queued (foldl step q evs) = queued q + length (filter (\<lambda>ev. ev = QueueJob) evs)"
  by (induction evs arbitrary: q) (simp_all add: queued_step)

lemma queued_run: "queued (run evs) = length (filter (\<lambda>ev. ev = QueueJob) evs)"
  by (simp add: run_def queued_foldl initial_queue_def)

lemma pending_after_call: "pending (run (evs @ [QueueJob])) = Some (queued (run evs))"
  by (simp add: run_def step_def queueJob_frame(2))

text \<open>
  C1. Whatever calls of \<open>queueJob\<close>, microtasks and settlements happen, in whatever
  order: every call of \<open>queueJob\<close> queues a job, so there are as many jobs as calls, and
  the promise a call returns (and leaves in \<open>pending\<close>) is the one numbered by the calls
  before it. The task of a job has been called only if the promises of all jobs submitted
  before it have settled, so at most one job is between the call of its task and the
  settlement of its promise, and the jobs start in the order of submission. Once the
  promise of a job has settled, however it settled (fulfilled, rejected or timed out),
  the next job submitted starts as soon as the microtasks have run; the first job starts
  the same way.
\<close>

theorem queueJob_serial:
  "queued (run evs) = length (filter (\<lambda>ev. ev = QueueJob) evs) \<and>
   pending (run (evs @ [QueueJob])) = Some (length (filter (\<lambda>ev. ev = QueueJob) evs)) \<and>
   (\<forall>j k. j < k \<and> k < queued (run evs) \<and> is_started (run evs) k \<longrightarrow> is_settled (run evs) j) \<and>
   (\<forall>j k. j < queued (run evs) \<and> k < queued (run evs) \<and>
           is_running (run evs) j \<and> is_running (run evs) k \<longrightarrow> j = k) \<and>
   (\<forall>k s. Suc k < queued (run evs) \<and> settled (promises (run evs) k) = Some s \<longrightarrow>
           is_started (drain (run evs)) (Suc k)) \<and>
   (0 < queued (run evs) \<longrightarrow> is_started (drain (run evs)) 0)"
proof -
  have c: "chain_inv (run evs)" by (rule chain_inv_run)
  have n: "queued (run evs) = length (filter (\<lambda>ev. ev = QueueJob) evs)"
    by (rule queued_run)
  have p: "pending (run (evs @ [QueueJob])) = Some (length (filter (\<lambda>ev. ev = QueueJob) evs))"
    using pending_after_call [of evs] n by simp
  have 1: "\<forall>j k. j < k \<and> k < queued (run evs) \<and> is_started (run evs) k \<longrightarrow> is_settled (run evs) j"
    using chain_order [OF c] by blast
  have 2: "\<forall>j k. j < queued (run evs) \<and> k < queued (run evs) \<and>
           is_running (run evs) j \<and> is_running (run evs) k \<longrightarrow> j = k"
    using chain_exclusive [OF c] by blast
  have 3: "\<forall>k s. Suc k < queued (run evs) \<and> settled (promises (run evs) k) = Some s \<longrightarrow>
           is_started (drain (run evs)) (Suc k)"
  proof (intro allI impI)
    fix k s
    assume h: "Suc k < queued (run evs) \<and> settled (promises (run evs) k) = Some s"
    then have sk: "is_settled (run evs) k" by (simp add: is_settled_def)
    have i: "inv1 (run evs)" "inv2 (run evs)" using c by (simp_all add: chain_inv_def)
    have "\<forall>j<Suc k. is_settled (run evs) j"
      using settled_closed [OF i _ sk] h by auto
    then show "is_started (drain (run evs)) (Suc k)"
      using chain_progress [OF c] h by blast
  qed
  have 4: "0 < queued (run evs) \<longrightarrow> is_started (drain (run evs)) 0"
    using chain_progress [OF c, of 0] by simp
  show ?thesis using n p 1 2 3 4 by (intro conjI)
qed

lemma example_events_run:
  "queued (run example_events) = 2 \<and>
   settled (promises (run example_events) 0) = Some TimedOut \<and>
   \<not> is_started (run example_events) (Suc 0) \<and>
   is_started (run example_events) 0 \<and>
   microtasks (run example_events) = [RunTask (Suc 0)]"
  by (simp add: example_events_def run_def step_def queueJob_def then_both_def Let_def
      run_microtask_def task_settles_def initial_queue_def new_promise_def is_started_def
      runs_on_def)

theorem queueJob_serial_witness:
  "queued (run example_events) = 2 \<and>
   length (filter (\<lambda>ev. ev = QueueJob) example_events) = 2 \<and>
   Suc 0 < queued (run example_events) \<and>
   settled (promises (run example_events) 0) = Some TimedOut \<and>
   \<not> is_started (run example_events) (Suc 0) \<and>
   is_started (drain (run example_events)) (Suc 0) \<and>
   0 < Suc 0 \<and> Suc 0 < queued (drain (run example_events)) \<and>
   is_settled (drain (run example_events)) 0"
proof -
  have h: "Suc 0 < queued (run example_events) \<and>
      settled (promises (run example_events) 0) = Some TimedOut"
    using example_events_run by simp
  have n: "queued (run example_events) = length (filter (\<lambda>ev. ev = QueueJob) example_events)"
    using queueJob_serial [of example_events] by blast
  have s: "is_started (drain (run example_events)) (Suc 0)"
    using h queueJob_serial [of example_events] by blast
  have d: "queued (drain (run example_events)) = queued (run example_events)"
      "is_settled (drain (run example_events)) 0 = is_settled (run example_events) 0"
    using drain_frame by blast+
  show ?thesis
    using h n s d example_events_run by (simp add: is_settled_def)
qed

end
